theory Spec2Isabelle
  imports Complex_Main
begin

section \<open>Numbers and hand landmarks\<close>

text \<open>
  The program is a single TypeScript component. Its numbers are JavaScript numbers; they
  are modelled here as mathematical reals, so every statement below is about the
  arithmetic the code writes down, not about rounding. A landmark is MediaPipe's
  \<^verbatim>\<open>NormalizedLandmark\<close> with its fields \<^verbatim>\<open>x\<close>, \<^verbatim>\<open>y\<close>, \<^verbatim>\<open>z\<close>, named
  \<open>lx\<close>, \<open>ly\<close>, \<open>lz\<close> here.
\<close>

record landmark =
  lx :: real
  ly :: real
  lz :: real

datatype GestureType = NONE | FIST | OPEN_ROTATE | PINCH_ZOOM | L_SHAPE_PHOTO

datatype js_error = TypeError

text \<open>\<^verbatim>\<open>Math.hypot(a, b)\<close>.\<close>

definition hypot :: "real \<Rightarrow> real \<Rightarrow> real" where
  "hypot a b = sqrt (a * a + b * b)"

text \<open>
  \<^verbatim>\<open>lm[i]\<close> on a JavaScript array: the element, or \<^verbatim>\<open>undefined\<close> (here \<open>None\<close>)
  when the index is out of range.
\<close>

definition js_index :: "'a list \<Rightarrow> nat \<Rightarrow> 'a option" where
  "js_index xs i = (if i < length xs then Some (xs ! i) else None)"

definition bind_err :: "js_error + 'a \<Rightarrow> ('a \<Rightarrow> js_error + 'b) \<Rightarrow> js_error + 'b" where
  "bind_err m f = (case m of Inl e \<Rightarrow> Inl e | Inr v \<Rightarrow> f v)"

text \<open>
  The local helper \<^verbatim>\<open>d\<close> of \<^verbatim>\<open>detectGesture\<close>: reading \<^verbatim>\<open>.x\<close> of
  \<^verbatim>\<open>undefined\<close> throws a \<^verbatim>\<open>TypeError\<close>.
\<close>

definition d :: "landmark option \<Rightarrow> landmark option \<Rightarrow> js_error + real" where
  "d a b =
     (case a of
        None \<Rightarrow> Inl TypeError
      | Some p \<Rightarrow>
          (case b of
             None \<Rightarrow> Inl TypeError
           | Some q \<Rightarrow> Inr (hypot (lx p - lx q) (ly p - ly q))))"

text \<open>\<^verbatim>\<open>tips.forEach(t => totalTipDist += d(t, wrist))\<close>, with the running total.\<close>

fun totalTipDist :: "landmark option list \<Rightarrow> landmark option \<Rightarrow> real \<Rightarrow> js_error + real" where
  "totalTipDist [] wrist acc = Inr acc"
| "totalTipDist (t # ts) wrist acc =
     bind_err (d t wrist) (\<lambda>v. totalTipDist ts wrist (acc + v))"

definition detectGesture :: "landmark list \<Rightarrow> js_error + GestureType" where
  "detectGesture lm =
     (let wrist = js_index lm 0;
          thumbTip = js_index lm 4;
          indexTip = js_index lm 8;
          midTip = js_index lm 12;
          ringTip = js_index lm 16;
          pinkyTip = js_index lm 20
      in bind_err (d thumbTip indexTip) (\<lambda>pinch.
           if pinch < 0.05 then Inr PINCH_ZOOM
           else
             bind_err (d indexTip wrist) (\<lambda>indexDist.
             bind_err (d midTip wrist) (\<lambda>midDist.
             bind_err (d ringTip wrist) (\<lambda>ringDist.
             bind_err (d pinkyTip wrist) (\<lambda>pinkyDist.
             bind_err
               (if indexDist > 0.3 \<and> midDist < 0.25 \<and> ringDist < 0.25 \<and> pinkyDist < 0.25
                then bind_err (d thumbTip wrist) (\<lambda>thumbDist. Inr (thumbDist > 0.2))
                else Inr False)
               (\<lambda>lshape.
                  if lshape then Inr L_SHAPE_PHOTO
                  else
                    bind_err (totalTipDist [indexTip, midTip, ringTip, pinkyTip] wrist 0)
                      (\<lambda>tipSum.
                         let avgDist = tipSum / 4
                         in if avgDist < 0.25 then Inr FIST
                            else if avgDist > 0.35 then Inr OPEN_ROTATE
                            else Inr NONE))))))))"

text \<open>
  The distance the specification speaks of: the Euclidean distance of two landmarks in the
  normalized image plane.
\<close>

definition planeDist :: "landmark \<Rightarrow> landmark \<Rightarrow> real" where
  "planeDist p q = sqrt ((lx p - lx q)\<^sup>2 + (ly p - ly q)\<^sup>2)"

text \<open>
  A hand given by its wrist and five fingertips: a list of 21 landmarks with the wrist at
  index 0 and the tips at 4, 8, 12, 16 and 20 (the joints in between repeat a neighbour).
\<close>

definition hand :: "landmark \<Rightarrow> landmark \<Rightarrow> landmark \<Rightarrow> landmark \<Rightarrow> landmark \<Rightarrow> landmark \<Rightarrow> landmark list" where
  "hand w t i m r p = [w, w, w, w, t, i, i, i, i, m, m, m, m, r, r, r, r, p, p, p, p]"

definition pt :: "real \<Rightarrow> real \<Rightarrow> landmark" where
  "pt a b = \<lparr>lx = a, ly = b, lz = 0\<rparr>"

definition pinchHand :: "landmark list" where
  "pinchHand = hand (pt 0.5 0.9) (pt 0.5 0.5) (pt 0.52 0.5) (pt 0.5 0.6) (pt 0.5 0.6) (pt 0.5 0.6)"

definition lshapeHand :: "landmark list" where
  "lshapeHand = hand (pt 0.5 0.5) (pt 0.5 0.75) (pt 0.5 0.1) (pt 0.5 0.4) (pt 0.5 0.4) (pt 0.5 0.4)"

definition openHand :: "landmark list" where
  "openHand = hand (pt 0.2 0.9) (pt 0.2 0.6) (pt 0.2 0.4) (pt 0.2 0.4) (pt 0.2 0.4) (pt 0.2 0.4)"

definition fistHand :: "landmark list" where
  "fistHand = hand (pt 0.5 0.5) (pt 0.5 0.7) (pt 0.5 0.4) (pt 0.5 0.4) (pt 0.5 0.4) (pt 0.5 0.4)"

definition relaxedHand :: "landmark list" where
  "relaxedHand = hand (pt 0.5 0.5) (pt 0.5 0.7) (pt 0.5 0.2) (pt 0.5 0.2) (pt 0.5 0.2) (pt 0.5 0.2)"

text \<open>The pinching hand again, held at another depth.\<close>

definition deepPinchHand :: "landmark list" where
  "deepPinchHand = map (\<lambda>l. l\<lparr>lz := 1\<rparr>) pinchHand"

section \<open>Vectors, particles and the application state\<close>

text \<open>
  \<^verbatim>\<open>THREE.Vector3\<close> and the methods of it that the animation and the photo capture call,
  as three.js defines them (each works componentwise on the receiver).
\<close>

record vec3 =
  vx :: real
  vy :: real
  vz :: real

definition v_set :: "real \<Rightarrow> real \<Rightarrow> real \<Rightarrow> vec3" where
  "v_set a b c = \<lparr>vx = a, vy = b, vz = c\<rparr>"

definition v_setScalar :: "real \<Rightarrow> vec3" where
  "v_setScalar a = v_set a a a"

definition v_add :: "vec3 \<Rightarrow> vec3 \<Rightarrow> vec3" where
  "v_add a b = \<lparr>vx = vx a + vx b, vy = vy a + vy b, vz = vz a + vz b\<rparr>"

definition v_sub :: "vec3 \<Rightarrow> vec3 \<Rightarrow> vec3" where
  "v_sub a b = \<lparr>vx = vx a - vx b, vy = vy a - vy b, vz = vz a - vz b\<rparr>"

definition v_negate :: "vec3 \<Rightarrow> vec3" where
  "v_negate a = \<lparr>vx = - vx a, vy = - vy a, vz = - vz a\<rparr>"

definition v_multiplyScalar :: "vec3 \<Rightarrow> real \<Rightarrow> vec3" where
  "v_multiplyScalar a k = \<lparr>vx = vx a * k, vy = vy a * k, vz = vz a * k\<rparr>"

definition v_length :: "vec3 \<Rightarrow> real" where
  "v_length a = sqrt (vx a * vx a + vy a * vy a + vz a * vz a)"

definition v_distanceTo :: "vec3 \<Rightarrow> vec3 \<Rightarrow> real" where
  "v_distanceTo a b = v_length (v_sub a b)"

text \<open>\<^verbatim>\<open>normalize()\<close> divides by \<^verbatim>\<open>length() || 1\<close>.\<close>

definition v_normalize :: "vec3 \<Rightarrow> vec3" where
  "v_normalize a =
     (let l = (if v_length a = 0 then 1 else v_length a)
      in \<lparr>vx = vx a / l, vy = vy a / l, vz = vz a / l\<rparr>)"

text \<open>\<^verbatim>\<open>a.lerp(b, alpha)\<close>: \<^verbatim>\<open>this.x += (v.x - this.x) * alpha\<close>, and so for y and z.\<close>

definition v_lerp :: "vec3 \<Rightarrow> vec3 \<Rightarrow> real \<Rightarrow> vec3" where
  "v_lerp a b alpha =
     \<lparr>vx = vx a + (vx b - vx a) * alpha,
      vy = vy a + (vy b - vy a) * alpha,
      vz = vz a + (vz b - vz a) * alpha\<rparr>"

definition TREE_HEIGHT :: real where "TREE_HEIGHT = 55"
definition TREE_BASE_RADIUS :: real where "TREE_BASE_RADIUS = 22"
definition SCATTER_RADIUS :: real where "SCATTER_RADIUS = 70"
definition LERP_SPEED :: real where "LERP_SPEED = 0.025"

datatype AppMode = LOADING | SCATTER | TREE

datatype ParticleType =
  ORNAMENT | GIFT | CANDY_CANE | STAR_ORNAMENT | BRANCH | BELL | SNOWFLAKE | LIGHT | PHOTO

text \<open>
  The visual handle of a particle. Only its position and its scale are modelled; its
  orientation (\<^verbatim>\<open>rotation\<close>, \<^verbatim>\<open>lookAt\<close>) is left out: nothing below reads it, and no
  statement of the code that is modelled depends on it.
\<close>

record Object3D =
  position :: vec3
  scale :: vec3

record Particle =
  mesh :: Object3D
  ptype :: ParticleType
  treePos :: vec3
  scatterPos :: vec3
  velocity :: vec3
  rotationSpeed :: vec3
  isPhoto :: "bool option"
  originalScale :: "real option"

text \<open>
  Whether \<^verbatim>\<open>visionLoop\<close> is scheduled: not before \<^verbatim>\<open>setupVision\<close> has succeeded, and no
  more once a run of it has thrown (the \<^verbatim>\<open>requestAnimationFrame\<close> at its end is then not
  reached).
\<close>

datatype LoopState = NotStarted | Running | Stopped

text \<open>
  The state of the component: its React state (\<open>appMode\<close>, \<open>debugInfo\<close>, \<open>countdown\<close>,
  \<open>flash\<close>, \<open>showCamera\<close>), its refs, \<open>lastVideoTime\<close>, the live \<^verbatim>\<open>setInterval\<close> timers
  of the photo countdown (each closure's \<^verbatim>\<open>count\<close>, in the order they were started) and
  the number of pending \<^verbatim>\<open>setTimeout(() => setFlash(false), 150)\<close> calls.
\<close>

record App =
  appMode :: AppMode
  debugInfo :: string
  countdown :: "int option"
  flash :: bool
  showCamera :: bool
  particlesRef :: "Particle list"
  modeRef :: AppMode
  rotationOffsetRef :: real
  rotationSpeedRef :: real
  isCountingDownRef :: bool
  photoModeDebounceRef :: nat
  gestureRef :: GestureType
  lastVideoTime :: real
  intervals :: "int list"
  flashTimeouts :: nat
  visionLoopState :: LoopState

text \<open>The state when the effect has run: \<open>ps\<close> are the particles made at start-up.\<close>

definition initApp :: "Particle list \<Rightarrow> App" where
  "initApp ps =
     \<lparr>appMode = LOADING, debugInfo = [], countdown = None, flash = False, showCamera = False,
      particlesRef = ps, modeRef = LOADING, rotationOffsetRef = 0, rotationSpeedRef = 0.005,
      isCountingDownRef = False, photoModeDebounceRef = 0, gestureRef = NONE,
      lastVideoTime = - 1, intervals = [], flashTimeouts = 0, visionLoopState = NotStarted\<rparr>"

section \<open>Photo capture\<close>

text \<open>
  What \<^verbatim>\<open>capturePhoto\<close> meets outside the state: whether \<^verbatim>\<open>videoRef.current\<close> is
  there, the \<^verbatim>\<open>readyState\<close> the video element has at that moment, whether the canvas
  gives a 2D context, and the random draws (the point \<^verbatim>\<open>getTreePos()\<close> returns, one
  \<^verbatim>\<open>Math.random()\<close>, two \<^verbatim>\<open>randomDirection()\<close> and one \<^verbatim>\<open>random()\<close> vector).
  \<^verbatim>\<open>capturePhoto\<close> tests \<^verbatim>\<open>videoRef.current\<close> and the context only; it never reads
  \<^verbatim>\<open>readyState\<close>, and \<^verbatim>\<open>drawImage\<close> on a video without a frame paints nothing and
  does not throw. The video's width and height decide the crop of the picture only, which
  is not part of the state.
\<close>

record CaptureEnv =
  videoRefCurrent :: bool
  videoReadyState :: nat
  context2d :: bool
  rndTreePos :: vec3
  rndY :: real
  rndScatterDir :: vec3
  rndVelocityDir :: vec3
  rndRotation :: vec3

definition newPhoto :: "CaptureEnv \<Rightarrow> Particle" where
  "newPhoto env =
     \<lparr>mesh = \<lparr>position = v_set 0 0 0, scale = v_setScalar 0\<rparr>,
      ptype = PHOTO,
      treePos = (v_multiplyScalar (v_normalize (rndTreePos env)) (TREE_BASE_RADIUS * 0.8))
                  \<lparr>vy := (rndY env - 0.5) * TREE_HEIGHT * 0.8\<rparr>,
      scatterPos = v_multiplyScalar (rndScatterDir env) SCATTER_RADIUS,
      velocity = v_multiplyScalar (rndVelocityDir env) 0.08,
      rotationSpeed = v_multiplyScalar (rndRotation env) 0.02,
      isPhoto = Some True,
      originalScale = Some 1.5\<rparr>"

definition capturePhoto :: "CaptureEnv \<Rightarrow> App \<Rightarrow> App" where
  "capturePhoto env s =
     (if \<not> videoRefCurrent env then s
      else if \<not> context2d env then s
      else s\<lparr>particlesRef := particlesRef s @ [newPhoto env]\<rparr>)"

section \<open>The animation tick\<close>

definition cameraPosition :: vec3 where
  "cameraPosition = v_set 0 5 70"

text \<open>
  \<^verbatim>\<open>p.mesh.getWorldPosition\<close>: the meshes are children of \<^verbatim>\<open>mainGroup\<close>, whose only
  transform is its rotation about the y axis by \<^verbatim>\<open>rotationOffsetRef.current\<close>.
\<close>

definition getWorldPosition :: "real \<Rightarrow> Object3D \<Rightarrow> vec3" where
  "getWorldPosition theta m =
     \<lparr>vx = cos theta * vx (position m) + sin theta * vz (position m),
      vy = vy (position m),
      vz = - sin theta * vx (position m) + cos theta * vz (position m)\<rparr>"

text \<open>
  Of \<^verbatim>\<open>animate\<close> the rotation offset and the particles are modelled; the star topper,
  the dust cloud and the call of the renderer are outside the state. The first loop of
  \<^verbatim>\<open>animate\<close>: the index of the photo nearest to the camera and its
  distance; \<open>None\<close> stands for \<^verbatim>\<open>null\<close> and for \<^verbatim>\<open>Infinity\<close>.
\<close>

fun nearestScan :: "real \<Rightarrow> (nat \<times> Particle) list \<Rightarrow> nat option \<times> real option \<Rightarrow> nat option \<times> real option" where
  "nearestScan theta [] acc = acc"
| "nearestScan theta ((i, p) # ps) (nearestPhoto, minDist) =
     (if ptype p = PHOTO then
        (let dist = v_distanceTo (getWorldPosition theta (mesh p)) cameraPosition
         in if (case minDist of None \<Rightarrow> True | Some m \<Rightarrow> dist < m)
            then nearestScan theta ps (Some i, Some dist)
            else nearestScan theta ps (nearestPhoto, minDist))
      else nearestScan theta ps (nearestPhoto, minDist))"

definition nearestPhoto :: "GestureType \<Rightarrow> real \<Rightarrow> Particle list \<Rightarrow> nat option" where
  "nearestPhoto currentGesture theta ps =
     (if currentGesture = PINCH_ZOOM then fst (nearestScan theta (enumerate 0 ps) (None, None))
      else None)"

text \<open>\<^verbatim>\<open>p.originalScale || 1.0\<close>.\<close>

definition originalScaleOr1 :: "Particle \<Rightarrow> real" where
  "originalScaleOr1 p = (case originalScale p of None \<Rightarrow> 1 | Some v \<Rightarrow> (if v = 0 then 1 else v))"

definition scaleLerp :: "real \<Rightarrow> Particle \<Rightarrow> Particle" where
  "scaleLerp k p = p\<lparr>mesh := (mesh p)\<lparr>scale := v_lerp (scale (mesh p)) (v_set k k k) 0.1\<rparr>\<rparr>"

definition isFocusing :: "GestureType \<Rightarrow> nat option \<Rightarrow> nat \<Rightarrow> Particle \<Rightarrow> bool" where
  "isFocusing currentGesture nearest i p \<longleftrightarrow>
     currentGesture = PINCH_ZOOM \<and> nearest = Some i \<and> ptype p = PHOTO"

text \<open>
  The body of the second loop of \<^verbatim>\<open>animate\<close> up to its last line: the particle after
  the branch taken, and the \<^verbatim>\<open>target\<close> that branch has set.
\<close>

definition particleTarget :: "AppMode \<Rightarrow> GestureType \<Rightarrow> real \<Rightarrow> bool \<Rightarrow> Particle \<Rightarrow> Particle \<times> vec3" where
  "particleTarget currentMode currentGesture time focusing p =
     (if focusing then (scaleLerp 6.0 p, v_set 0 5 55)
      else if currentMode = TREE \<and> currentGesture \<noteq> PINCH_ZOOM then
        (let p1 = (if ptype p = LIGHT
                   then p\<lparr>mesh := (mesh p)\<lparr>scale := v_setScalar ((1 + sin (time * 6 + vx (treePos p)) * 0.4) * 1.2)\<rparr>\<rparr>
                   else p);
             p2 = (if ptype p1 = PHOTO then scaleLerp (originalScaleOr1 p1) p1 else p1)
         in (p2, treePos p))
      else
        (let p1 = p\<lparr>scatterPos := v_add (scatterPos p) (velocity p)\<rparr>;
             p2 = (if v_length (scatterPos p1) > SCATTER_RADIUS
                   then p1\<lparr>velocity := v_negate (velocity p1)\<rparr> else p1);
             p3 = (if ptype p2 = PHOTO then scaleLerp (originalScaleOr1 p2) p2 else p2)
         in (p3, scatterPos p2)))"

definition animateParticle :: "AppMode \<Rightarrow> GestureType \<Rightarrow> real \<Rightarrow> nat option \<Rightarrow> nat \<times> Particle \<Rightarrow> Particle" where
  "animateParticle currentMode currentGesture time nearest ip =
     (case ip of (i, p) \<Rightarrow>
        (case particleTarget currentMode currentGesture time (isFocusing currentGesture nearest i p) p of
           (p', target) \<Rightarrow>
             p'\<lparr>mesh := (mesh p')\<lparr>position := v_lerp (position (mesh p')) target LERP_SPEED\<rparr>\<rparr>))"

definition animate :: "real \<Rightarrow> App \<Rightarrow> App" where
  "animate time s =
     (let currentMode = modeRef s;
          currentGesture = gestureRef s;
          s1 = s\<lparr>rotationOffsetRef := rotationOffsetRef s + rotationSpeedRef s\<rparr>;
          nearest = nearestPhoto currentGesture (rotationOffsetRef s1) (particlesRef s1)
      in s1\<lparr>particlesRef :=
              map (animateParticle currentMode currentGesture time nearest)
                  (enumerate 0 (particlesRef s1))\<rparr>)"

section \<open>The vision loop and the photo countdown\<close>

text \<open>
  What one run of \<^verbatim>\<open>visionLoop\<close> reads from the video element and the hand landmarker:
  \<^verbatim>\<open>v.readyState\<close>, \<^verbatim>\<open>v.currentTime\<close> and \<^verbatim>\<open>results.landmarks\<close> (one landmark list
  per detected hand).
\<close>

record VideoFrame =
  readyState :: nat
  currentTime :: real
  landmarks :: "landmark list list"

text \<open>Branch 1 of the state machine: L_SHAPE_PHOTO, or the reset of the debounce counter.\<close>

definition photoBranch :: "GestureType \<Rightarrow> App \<Rightarrow> App" where
  "photoBranch detectedGesture s =
     (if detectedGesture = L_SHAPE_PHOTO then
        (let s1 = s\<lparr>debugInfo := ''L-SHAPE: PREPARING PHOTO'', rotationSpeedRef := 0.005\<rparr>
         in if \<not> isCountingDownRef s1 then
              (let s2 = s1\<lparr>photoModeDebounceRef := photoModeDebounceRef s1 + 1\<rparr>
               in if photoModeDebounceRef s2 > 10
                  then s2\<lparr>isCountingDownRef := True, countdown := Some 3, showCamera := True,
                          intervals := intervals s2 @ [3]\<rparr>
                  else s2)
            else s1)
      else s\<lparr>photoModeDebounceRef := 0\<rparr>)"

definition enterScatter :: "App \<Rightarrow> App" where
  "enterScatter s = (if modeRef s \<noteq> SCATTER then s\<lparr>appMode := SCATTER, modeRef := SCATTER\<rparr> else s)"

text \<open>Branches 2 to 4: OPEN_ROTATE, PINCH_ZOOM, FIST; no branch for any other label.\<close>

definition modeBranch :: "GestureType \<Rightarrow> landmark list \<Rightarrow> App \<Rightarrow> App" where
  "modeBranch detectedGesture lm s =
     (if detectedGesture = OPEN_ROTATE then
        (let s1 = enterScatter (s\<lparr>debugInfo := ''OPEN HAND: SCATTER & ROTATE''\<rparr>)
         in case js_index lm 0 of
              None \<Rightarrow> s1\<lparr>visionLoopState := Stopped\<rparr>
            | Some wrist \<Rightarrow>
                (let palmX = lx wrist; speed = (palmX - 0.5) * 0.02
                 in s1\<lparr>rotationSpeedRef := speed\<rparr>))
      else if detectedGesture = PINCH_ZOOM then
        (enterScatter (s\<lparr>debugInfo := ''PINCH: INSPECTING MEMORIES''\<rparr>))\<lparr>rotationSpeedRef := 0.002\<rparr>
      else if detectedGesture = FIST then
        (let s1 = s\<lparr>debugInfo := ''FIST: HOLDING TREE''\<rparr>;
             s2 = (if modeRef s1 \<noteq> TREE then s1\<lparr>appMode := TREE, modeRef := TREE\<rparr> else s1)
         in s2\<lparr>rotationSpeedRef := 0.005\<rparr>)
      else s)"

definition processed :: "App \<Rightarrow> VideoFrame \<Rightarrow> bool" where
  "processed s v \<longleftrightarrow>
     visionLoopState s = Running \<and> readyState v \<ge> 2 \<and> currentTime v \<noteq> lastVideoTime s"

text \<open>
  One run of \<^verbatim>\<open>visionLoop\<close>. A \<^verbatim>\<open>TypeError\<close> of the classifier leaves the loop through
  the exception: what was written before stays, and the loop is not scheduled again.
\<close>

definition visionLoop :: "VideoFrame \<Rightarrow> App \<Rightarrow> App" where
  "visionLoop v s =
     (if visionLoopState s \<noteq> Running then s
      else if readyState v \<ge> 2 \<and> currentTime v \<noteq> lastVideoTime s then
        (let s1 = s\<lparr>lastVideoTime := currentTime v\<rparr>
         in case landmarks v of
              [] \<Rightarrow> s1\<lparr>gestureRef := NONE, debugInfo := ''NO HAND DETECTED'', rotationSpeedRef := 0.005\<rparr>
            | lm # others \<Rightarrow>
                (case detectGesture lm of
                   Inl e \<Rightarrow> s1\<lparr>visionLoopState := Stopped\<rparr>
                 | Inr detectedGesture \<Rightarrow>
                     modeBranch detectedGesture lm
                       (photoBranch detectedGesture (s1\<lparr>gestureRef := detectedGesture\<rparr>))))
      else s)"

text \<open>
  The callback of the countdown's \<^verbatim>\<open>setInterval\<close>, for the \<open>k\<close>-th live timer: it
  decrements its \<^verbatim>\<open>count\<close>; at zero it clears itself, captures the photo and returns the
  photo sub-state to idle.
\<close>

definition intervalCallback :: "nat \<Rightarrow> CaptureEnv \<Rightarrow> App \<Rightarrow> App" where
  "intervalCallback k env s =
     (if k < length (intervals s) then
        (let count = intervals s ! k - 1
         in if count > 0 then s\<lparr>intervals := (intervals s)[k := count], countdown := Some count\<rparr>
            else
              (let s1 = s\<lparr>intervals := take k (intervals s) @ drop (Suc k) (intervals s),
                          countdown := None, flash := True\<rparr>;
                   s2 = capturePhoto env s1
               in s2\<lparr>flashTimeouts := flashTimeouts s2 + 1, showCamera := False,
                      isCountingDownRef := False, photoModeDebounceRef := 0\<rparr>))
      else s)"

text \<open>
  What can happen to the component: \<^verbatim>\<open>setupVision\<close> succeeds, \<^verbatim>\<open>visionLoop\<close> runs on
  what the video shows, \<^verbatim>\<open>animate\<close> runs at a clock time, a countdown timer fires, the
  flash timeout fires.
\<close>

datatype Event =
  SetupDone
| Vision VideoFrame
| RenderTick real
| IntervalFire nat CaptureEnv
| FlashTimeout

definition fire :: "App \<Rightarrow> Event \<Rightarrow> App" where
  "fire s e =
     (case e of
        SetupDone \<Rightarrow>
          (if visionLoopState s = NotStarted
           then s\<lparr>appMode := TREE, modeRef := TREE, visionLoopState := Running\<rparr> else s)
      | Vision v \<Rightarrow> visionLoop v s
      | RenderTick time \<Rightarrow> animate time s
      | IntervalFire k env \<Rightarrow> intervalCallback k env s
      | FlashTimeout \<Rightarrow>
          (if flashTimeouts s > 0 then s\<lparr>flash := False, flashTimeouts := flashTimeouts s - 1\<rparr> else s))"

definition run :: "App \<Rightarrow> Event list \<Rightarrow> App" where
  "run s es = foldl fire s es"

section \<open>Observing a run\<close>

text \<open>
  The notions the statements below use to speak about runs of the component. A processed
  frame with a hand that the classifier labels has that label: \<open>frameLabel\<close>;
  \<open>frameLabels\<close> collects the labels along a list of events, and \<open>idleAlong\<close> says
  that every event of the list happens while no countdown is running.
\<close>

definition frameLabel :: "App \<Rightarrow> Event \<Rightarrow> GestureType option" where
  "frameLabel s e =
     (case e of
        Vision v \<Rightarrow>
          (if processed s v then
             (case landmarks v of
                [] \<Rightarrow> None
              | lm # others \<Rightarrow> (case detectGesture lm of Inl err \<Rightarrow> None | Inr g \<Rightarrow> Some g))
           else None)
      | _ \<Rightarrow> None)"

fun frameLabels :: "App \<Rightarrow> Event list \<Rightarrow> GestureType list" where
  "frameLabels s [] = []"
| "frameLabels s (e # es) =
     (case frameLabel s e of None \<Rightarrow> [] | Some g \<Rightarrow> [g]) @ frameLabels (fire s e) es"

fun idleAlong :: "App \<Rightarrow> Event list \<Rightarrow> bool" where
  "idleAlong s [] = True"
| "idleAlong s (e # es) = (\<not> isCountingDownRef s \<and> idleAlong (fire s e) es)"

text \<open>
  \<open>consecutiveL ps es n\<close>: the run \<open>es\<close> from the start state ends with a stretch during
  which the photo sub-state is idle and whose classified frames are exactly \<open>n\<close> frames,
  all of them L_SHAPE_PHOTO.
\<close>

definition consecutiveL :: "Particle list \<Rightarrow> Event list \<Rightarrow> nat \<Rightarrow> bool" where
  "consecutiveL ps es n \<longleftrightarrow>
     (\<exists>pre mid. es = pre @ mid \<and> idleAlong (run (initApp ps) pre) mid
        \<and> frameLabels (run (initApp ps) pre) mid = replicate n L_SHAPE_PHOTO)"

text \<open>
  The invariant of the photo sub-state: while counting down exactly one timer is live;
  while idle none is, and the debounce counter is at most 10 and counts the L-shape frames
  of such a stretch.
\<close>

definition photoInv :: "Particle list \<Rightarrow> Event list \<Rightarrow> bool" where
  "photoInv ps es \<longleftrightarrow>
     (let s = run (initApp ps) es
      in if isCountingDownRef s then (\<exists>c. intervals s = [c])
         else intervals s = [] \<and> photoModeDebounceRef s \<le> 10
              \<and> consecutiveL ps es (photoModeDebounceRef s))"

text \<open>The magnitude of a vector, as the specification speaks of it.\<close>

definition magnitude :: "vec3 \<Rightarrow> real" where
  "magnitude v = sqrt ((vx v)\<^sup>2 + (vy v)\<^sup>2 + (vz v)\<^sup>2)"

text \<open>The sum of the rotation speeds that the render ticks of a run have added.\<close>

fun spinSum :: "App \<Rightarrow> Event list \<Rightarrow> real" where
  "spinSum s [] = 0"
| "spinSum s (e # es) =
     (case e of RenderTick t \<Rightarrow> rotationSpeedRef s | _ \<Rightarrow> 0) + spinSum (fire s e) es"

text \<open>
  Line \<^verbatim>\<open>p.mesh.position.lerp(target, LERP_SPEED)\<close> run \<open>N\<close> times with the same target.
\<close>

definition lerpTicks :: "vec3 \<Rightarrow> nat \<Rightarrow> vec3 \<Rightarrow> vec3" where
  "lerpTicks T N p0 = ((\<lambda>q. v_lerp q T LERP_SPEED) ^^ N) p0"

text \<open>
  The target \<^verbatim>\<open>animate\<close> interpolates towards, by the branch taken; \<open>focused s i\<close> says
  that particle \<open>i\<close> is the photo that a tick in state \<open>s\<close> pulls in front of the camera.
\<close>

definition branchTarget :: "AppMode \<Rightarrow> GestureType \<Rightarrow> bool \<Rightarrow> Particle \<Rightarrow> vec3" where
  "branchTarget currentMode currentGesture focusing p =
     (if focusing then v_set 0 5 55
      else if currentMode = TREE \<and> currentGesture \<noteq> PINCH_ZOOM then treePos p
      else v_add (scatterPos p) (velocity p))"

definition focused :: "App \<Rightarrow> nat \<Rightarrow> bool" where
  "focused s i \<longleftrightarrow>
     isFocusing (gestureRef s)
       (nearestPhoto (gestureRef s) (rotationOffsetRef s + rotationSpeedRef s) (particlesRef s))
       i (particlesRef s ! i)"

section \<open>Sample inputs\<close>

text \<open>Video frames showing one hand, or none, at playback time \<open>t\<close>.\<close>

definition handFrame :: "real \<Rightarrow> landmark list \<Rightarrow> VideoFrame" where
  "handFrame t lm = \<lparr>readyState = 4, currentTime = t, landmarks = [lm]\<rparr>"

definition emptyFrame :: "real \<Rightarrow> VideoFrame" where
  "emptyFrame t = \<lparr>readyState = 4, currentTime = t, landmarks = []\<rparr>"

definition lshapeFrames :: "nat \<Rightarrow> Event list" where
  "lshapeFrames n = map (\<lambda>t. Vision (handFrame (real t) lshapeHand)) [0..<n]"

definition ornament :: Particle where
  "ornament =
     \<lparr>mesh = \<lparr>position = v_set 40 10 0, scale = v_setScalar 1\<rparr>, ptype = ORNAMENT,
      treePos = v_set 0 10 0, scatterPos = v_set 69.95 0 0, velocity = v_set 0.08 0 0,
      rotationSpeed = v_set 0.01 0.02 0.03, isPhoto = None, originalScale = None\<rparr>"

definition snapshot :: Particle where
  "snapshot =
     \<lparr>mesh = \<lparr>position = v_set 0 0 0, scale = v_setScalar 0\<rparr>, ptype = PHOTO,
      treePos = v_set 17.6 0 0, scatterPos = v_set 70 0 0, velocity = v_set 0.08 0 0,
      rotationSpeed = v_set 0.01 0.01 0.01, isPhoto = Some True, originalScale = Some 1.5\<rparr>"

definition cameraOn :: CaptureEnv where
  "cameraOn =
     \<lparr>videoRefCurrent = True, videoReadyState = 4, context2d = True,
      rndTreePos = v_set 1 0 0, rndY = 0.5,
      rndScatterDir = v_set 1 0 0, rndVelocityDir = v_set 1 0 0, rndRotation = v_set 0.5 0.5 0.5\<rparr>"

definition cameraOff :: CaptureEnv where
  "cameraOff = cameraOn\<lparr>videoRefCurrent := False\<rparr>"

text \<open>The video element is mounted but has no frame yet (\<^verbatim>\<open>HAVE_NOTHING\<close>).\<close>

definition cameraNotReady :: CaptureEnv where
  "cameraNotReady = cameraOn\<lparr>videoReadyState := 0\<rparr>"

text \<open>L-shape frames at the playback times \<open>a\<close>, \<open>a + 1\<close>, ..., \<open>a + n - 1\<close>.\<close>

definition lshapeFramesFrom :: "nat \<Rightarrow> nat \<Rightarrow> Event list" where
  "lshapeFramesFrom a n = map (\<lambda>t. Vision (handFrame (real t) lshapeHand)) [a..<a + n]"

text \<open>
  Five L-shape frames, a frame without a hand, six more L-shape frames; and the same run
  without its last frame.
\<close>

definition gapRun :: "Event list" where
  "gapRun = SetupDone # lshapeFrames 5 @ [Vision (emptyFrame 5)] @ lshapeFramesFrom 6 6"

definition gapRunButLast :: "Event list" where
  "gapRunButLast = SetupDone # lshapeFrames 5 @ [Vision (emptyFrame 5)] @ lshapeFramesFrom 6 5"

definition pinchScene :: App where
  "pinchScene = run (initApp [snapshot, ornament]) [SetupDone, Vision (handFrame 0 pinchHand)]"

definition openScene :: App where
  "openScene = run (initApp [ornament]) [SetupDone, Vision (handFrame 0 openHand)]"

definition treeScene :: App where
  "treeScene = run (initApp [ornament]) [SetupDone]"

definition countingScene :: App where
  "countingScene = run (initApp []) (SetupDone # lshapeFrames 11)"

definition lastSecondScene :: App where
  "lastSecondScene =
     run (initApp []) (SetupDone # lshapeFrames 11 @ [IntervalFire 0 cameraOn, IntervalFire 0 cameraOn])"

definition afterPinch :: App where
  "afterPinch = run (initApp []) [SetupDone, Vision (handFrame 0 pinchHand)]"

definition afterFiveL :: App where
  "afterFiveL = run (initApp []) (SetupDone # lshapeFrames 5)"

section \<open>The classifier\<close>

lemma hypot_planeDist: "hypot (lx p - lx q) (ly p - ly q) = planeDist p q"
  by (simp add: hypot_def planeDist_def power2_eq_square)

lemma d_Some: "d (Some p) (Some q) = Inr (planeDist p q)"
  by (simp add: d_def hypot_planeDist)

lemma bind_err_Inr: "bind_err (Inr v) f = f v"
  by (simp add: bind_err_def)

lemma bind_err_Inl: "bind_err (Inl e) f = Inl e"
  by (simp add: bind_err_def)

lemma js_index_in: "i < length xs \<Longrightarrow> js_index xs i = Some (xs ! i)"
  by (simp add: js_index_def)

lemma hand_nth:
  "length (hand w t i m r p) = 21"
  "hand w t i m r p ! 0 = w" "hand w t i m r p ! 4 = t" "hand w t i m r p ! 8 = i"
  "hand w t i m r p ! 12 = m" "hand w t i m r p ! 16 = r" "hand w t i m r p ! 20 = p"
  by (simp_all add: hand_def)

lemma planeDist_zero_dx: "planeDist (pt a b) (pt a c) = \<bar>b - c\<bar>"
  by (simp add: planeDist_def pt_def)

lemma planeDist_zero_dy: "planeDist (pt a c) (pt b c) = \<bar>a - b\<bar>"
  by (simp add: planeDist_def pt_def)

lemma planeDist_less_iff:
  "0 < c \<Longrightarrow> planeDist p q < c \<longleftrightarrow> (lx p - lx q)\<^sup>2 + (ly p - ly q)\<^sup>2 < c\<^sup>2"
  unfolding planeDist_def
  by (metis abs_of_pos real_sqrt_abs real_sqrt_less_iff)

lemma detectGesture_hand:
  "detectGesture (hand w t i m r p) =
    Inr (if planeDist t i < 0.05 then PINCH_ZOOM
         else if planeDist i w > 0.3 \<and> planeDist m w < 0.25 \<and> planeDist r w < 0.25
                 \<and> planeDist p w < 0.25 \<and> planeDist t w > 0.2
              then L_SHAPE_PHOTO
         else if (planeDist i w + planeDist m w + planeDist r w + planeDist p w) / 4 < 0.25
              then FIST
         else if (planeDist i w + planeDist m w + planeDist r w + planeDist p w) / 4 > 0.35
              then OPEN_ROTATE
         else NONE)"
proof -
  have ix: "js_index (hand w t i m r p) 0 = Some w" "js_index (hand w t i m r p) 4 = Some t"
    "js_index (hand w t i m r p) 8 = Some i" "js_index (hand w t i m r p) 12 = Some m"
    "js_index (hand w t i m r p) 16 = Some r" "js_index (hand w t i m r p) 20 = Some p"
    by (simp_all add: js_index_def hand_nth)
  show ?thesis
    unfolding detectGesture_def Let_def ix
    by (simp add: d_Some bind_err_Inr)
qed

lemma detect_pinchHand: "detectGesture pinchHand = Inr PINCH_ZOOM"
  unfolding pinchHand_def detectGesture_hand by (simp add: planeDist_zero_dy)

lemma detect_lshapeHand: "detectGesture lshapeHand = Inr L_SHAPE_PHOTO"
  unfolding lshapeHand_def detectGesture_hand by (simp add: planeDist_zero_dx)

lemma detect_openHand: "detectGesture openHand = Inr OPEN_ROTATE"
  unfolding openHand_def detectGesture_hand by (simp add: planeDist_zero_dx)

lemma detect_fistHand: "detectGesture fistHand = Inr FIST"
  unfolding fistHand_def detectGesture_hand by (simp add: planeDist_zero_dx)

lemma detect_relaxedHand: "detectGesture relaxedHand = Inr NONE"
  unfolding relaxedHand_def detectGesture_hand by (simp add: planeDist_zero_dx)

text \<open>
  C1. On 21 landmarks the classifier never fails and returns its label by the first rule
  that matches, in this order: thumb tip and index tip closer than 0.05 give PINCH_ZOOM;
  else index tip farther than 0.3 from the wrist, middle, ring and pinky tips each closer
  than 0.25 to it and the thumb tip farther than 0.2 from it give L_SHAPE_PHOTO; else the
  average of the four non-thumb tip-to-wrist distances decides: below 0.25 FIST, above
  0.35 OPEN_ROTATE, NONE in between.
\<close>

theorem detectGesture_precedence:
  assumes "length lm = 21"
  shows "detectGesture lm =
    Inr (if planeDist (lm ! 4) (lm ! 8) < 0.05 then PINCH_ZOOM
         else if planeDist (lm ! 8) (lm ! 0) > 0.3 \<and> planeDist (lm ! 12) (lm ! 0) < 0.25
                 \<and> planeDist (lm ! 16) (lm ! 0) < 0.25 \<and> planeDist (lm ! 20) (lm ! 0) < 0.25
                 \<and> planeDist (lm ! 4) (lm ! 0) > 0.2
              then L_SHAPE_PHOTO
         else if (planeDist (lm ! 8) (lm ! 0) + planeDist (lm ! 12) (lm ! 0)
                  + planeDist (lm ! 16) (lm ! 0) + planeDist (lm ! 20) (lm ! 0)) / 4 < 0.25
              then FIST
         else if (planeDist (lm ! 8) (lm ! 0) + planeDist (lm ! 12) (lm ! 0)
                  + planeDist (lm ! 16) (lm ! 0) + planeDist (lm ! 20) (lm ! 0)) / 4 > 0.35
              then OPEN_ROTATE
         else NONE)"
proof -
  have ix: "js_index lm 0 = Some (lm ! 0)" "js_index lm 4 = Some (lm ! 4)"
    "js_index lm 8 = Some (lm ! 8)" "js_index lm 12 = Some (lm ! 12)"
    "js_index lm 16 = Some (lm ! 16)" "js_index lm 20 = Some (lm ! 20)"
    using assms by (simp_all add: js_index_in)
  show ?thesis
    unfolding detectGesture_def Let_def ix
    by (simp add: d_Some bind_err_Inr)
qed

theorem detectGesture_precedence_witness:
  "length pinchHand = 21 \<and> detectGesture pinchHand = Inr PINCH_ZOOM"
proof -
  have len: "length pinchHand = 21"
    by (simp add: pinchHand_def hand_nth)
  have tips: "pinchHand ! 4 = pt 0.5 0.5" "pinchHand ! 8 = pt 0.52 0.5"
    by (simp_all add: pinchHand_def hand_nth)
  have "planeDist (pinchHand ! 4) (pinchHand ! 8) < 0.05"
    unfolding tips by (simp add: planeDist_zero_dy)
  with detectGesture_precedence [OF len] len show ?thesis
    by simp
qed

text \<open>
  C9. The classifier reads only the x and y of the landmarks: two landmark lists that agree
  on every landmark's x and y get the same result, whatever their depths are.
\<close>

theorem detectGesture_ignores_depth:
  assumes "map (\<lambda>l. (lx l, ly l)) lm1 = map (\<lambda>l. (lx l, ly l)) lm2"
  shows "detectGesture lm1 = detectGesture lm2"
proof -
  have len: "length lm1 = length lm2"
    using assms by (rule map_eq_imp_length_eq)
  have xy: "lx (lm1 ! i) = lx (lm2 ! i) \<and> ly (lm1 ! i) = ly (lm2 ! i)" if "i < length lm1" for i
  proof -
    have "map (\<lambda>l. (lx l, ly l)) lm1 ! i = map (\<lambda>l. (lx l, ly l)) lm2 ! i"
      using assms by simp
    with that len show ?thesis by simp
  qed
  have D: "d (js_index lm1 i) (js_index lm1 j) = d (js_index lm2 i) (js_index lm2 j)" for i j
    using xy [of i] xy [of j] len by (simp add: d_def js_index_def)
  show ?thesis
    unfolding detectGesture_def Let_def totalTipDist.simps by (simp only: D)
qed

theorem detectGesture_ignores_depth_witness:
  "map (\<lambda>l. (lx l, ly l)) pinchHand = map (\<lambda>l. (lx l, ly l)) deepPinchHand
   \<and> map lz pinchHand \<noteq> map lz deepPinchHand
   \<and> detectGesture pinchHand = detectGesture deepPinchHand"
proof -
  have same: "map (\<lambda>l. (lx l, ly l)) pinchHand = map (\<lambda>l. (lx l, ly l)) deepPinchHand"
    by (simp add: deepPinchHand_def o_def)
  have differ: "map lz pinchHand \<noteq> map lz deepPinchHand"
    by (simp add: deepPinchHand_def pinchHand_def hand_def pt_def)
  from detectGesture_ignores_depth [OF same] same differ show ?thesis
    by simp
qed

lemma visionLoop_hand:
  "processed s v \<Longrightarrow> landmarks v = lm # others \<Longrightarrow> detectGesture lm = Inr g \<Longrightarrow>
   visionLoop v s = modeBranch g lm (photoBranch g (s\<lparr>lastVideoTime := currentTime v, gestureRef := g\<rparr>))"
  by (simp add: visionLoop_def processed_def)

lemma visionLoop_nohand:
  "processed s v \<Longrightarrow> landmarks v = [] \<Longrightarrow>
   visionLoop v s = s\<lparr>lastVideoTime := currentTime v, gestureRef := NONE,
                      debugInfo := ''NO HAND DETECTED'', rotationSpeedRef := 0.005\<rparr>"
  by (simp add: visionLoop_def processed_def)

lemma visionLoop_throw:
  "processed s v \<Longrightarrow> landmarks v = lm # others \<Longrightarrow> detectGesture lm = Inl e \<Longrightarrow>
   visionLoop v s = s\<lparr>lastVideoTime := currentTime v, visionLoopState := Stopped\<rparr>"
  by (simp add: visionLoop_def processed_def)

lemma visionLoop_skip: "\<not> processed s v \<Longrightarrow> visionLoop v s = s"
  by (auto simp add: visionLoop_def processed_def)

lemma modeBranch_frame:
  "isCountingDownRef (modeBranch g lm s) = isCountingDownRef s"
  "photoModeDebounceRef (modeBranch g lm s) = photoModeDebounceRef s"
  "intervals (modeBranch g lm s) = intervals s"
  "countdown (modeBranch g lm s) = countdown s"
  "particlesRef (modeBranch g lm s) = particlesRef s"
  "rotationOffsetRef (modeBranch g lm s) = rotationOffsetRef s"
  "gestureRef (modeBranch g lm s) = gestureRef s"
  by (simp_all add: modeBranch_def enterScatter_def Let_def split: option.split)

lemma modeBranch_other:
  "g = NONE \<or> g = L_SHAPE_PHOTO \<Longrightarrow> modeBranch g lm s = s"
  by (auto simp add: modeBranch_def)

lemma photoBranch_frame:
  "modeRef (photoBranch g s) = modeRef s"
  "appMode (photoBranch g s) = appMode s"
  "particlesRef (photoBranch g s) = particlesRef s"
  "rotationOffsetRef (photoBranch g s) = rotationOffsetRef s"
  "gestureRef (photoBranch g s) = gestureRef s"
  by (simp_all add: photoBranch_def Let_def)

text \<open>
  C10. A processed frame classified L_SHAPE_PHOTO leaves the mode as it is and sets the
  rotation speed to 0.005, in every state: before the debounce threshold is met as well as
  while a countdown runs.
\<close>

theorem lshape_frame_effect:
  assumes "processed s v" "landmarks v = lm # others" "detectGesture lm = Inr L_SHAPE_PHOTO"
  shows "modeRef (visionLoop v s) = modeRef s \<and> appMode (visionLoop v s) = appMode s
     \<and> rotationSpeedRef (visionLoop v s) = 0.005"
  using assms by (simp add: visionLoop_hand modeBranch_other photoBranch_frame) (simp add: photoBranch_def Let_def)

text \<open>
  C4, as amended. On a processed frame with a hand that is classified NONE the debounce
  counter is reset to zero and the stored gesture is NONE, and the rotation speed stays as
  it was. On a processed frame without a hand the stored gesture is NONE and the rotation
  speed is reset to 0.005.
\<close>

theorem none_frame_effect:
  assumes "processed s v"
  shows "(\<forall>lm others. landmarks v = lm # others \<and> detectGesture lm = Inr NONE \<longrightarrow>
            photoModeDebounceRef (visionLoop v s) = 0 \<and> gestureRef (visionLoop v s) = NONE
            \<and> rotationSpeedRef (visionLoop v s) = rotationSpeedRef s)
       \<and> (landmarks v = [] \<longrightarrow>
            gestureRef (visionLoop v s) = NONE \<and> rotationSpeedRef (visionLoop v s) = 0.005)"
  using assms by (auto simp add: visionLoop_hand visionLoop_nohand modeBranch_other photoBranch_def)

lemma run_Nil: "run s [] = s" by (simp add: run_def)
lemma run_Cons: "run s (e # es) = run (fire s e) es" by (simp add: run_def)
lemma run_append: "run s (xs @ ys) = run (run s xs) ys" by (simp add: run_def)
lemma run_snoc: "run s (xs @ [e]) = fire (run s xs) e" by (simp add: run_def)

lemma frameLabels_append:
  "frameLabels s (xs @ ys) = frameLabels s xs @ frameLabels (run s xs) ys"
  by (induction xs arbitrary: s) (simp_all add: run_Nil run_Cons)

lemma idleAlong_append:
  "idleAlong s (xs @ ys) = (idleAlong s xs \<and> idleAlong (run s xs) ys)"
  by (induction xs arbitrary: s) (simp_all add: run_Nil run_Cons)

lemma frameLabel_Some:
  "frameLabel s e = Some g \<longleftrightarrow>
     (\<exists>v lm others. e = Vision v \<and> processed s v \<and> landmarks v = lm # others \<and> detectGesture lm = Inr g)"
  by (auto simp add: frameLabel_def split: Event.splits list.splits sum.splits)

lemma photoBranch_sub:
  "isCountingDownRef (photoBranch g s) =
     (isCountingDownRef s \<or> (g = L_SHAPE_PHOTO \<and> photoModeDebounceRef s \<ge> 10))"
  "photoModeDebounceRef (photoBranch g s) =
     (if g = L_SHAPE_PHOTO then (if isCountingDownRef s then photoModeDebounceRef s else photoModeDebounceRef s + 1) else 0)"
  "intervals (photoBranch g s) =
     (if g = L_SHAPE_PHOTO \<and> \<not> isCountingDownRef s \<and> photoModeDebounceRef s \<ge> 10 then intervals s @ [3] else intervals s)"
  "countdown (photoBranch g s) =
     (if g = L_SHAPE_PHOTO \<and> \<not> isCountingDownRef s \<and> photoModeDebounceRef s \<ge> 10 then Some 3 else countdown s)"
  by (auto simp add: photoBranch_def Let_def)

lemma fire_labelled:
  assumes "frameLabel s e = Some g"
  shows "isCountingDownRef (fire s e) =
           (isCountingDownRef s \<or> (g = L_SHAPE_PHOTO \<and> photoModeDebounceRef s \<ge> 10))"
    and "photoModeDebounceRef (fire s e) =
           (if g = L_SHAPE_PHOTO then (if isCountingDownRef s then photoModeDebounceRef s else photoModeDebounceRef s + 1) else 0)"
    and "intervals (fire s e) =
           (if g = L_SHAPE_PHOTO \<and> \<not> isCountingDownRef s \<and> photoModeDebounceRef s \<ge> 10 then intervals s @ [3] else intervals s)"
    and "countdown (fire s e) =
           (if g = L_SHAPE_PHOTO \<and> \<not> isCountingDownRef s \<and> photoModeDebounceRef s \<ge> 10 then Some 3 else countdown s)"
    and "particlesRef (fire s e) = particlesRef s"
proof -
  from assms obtain v lm others where e: "e = Vision v" and p: "processed s v"
    and l: "landmarks v = lm # others" and g: "detectGesture lm = Inr g"
    by (auto simp add: frameLabel_Some)
  have f: "fire s e = modeBranch g lm (photoBranch g (s\<lparr>lastVideoTime := currentTime v, gestureRef := g\<rparr>))"
    by (simp add: e fire_def visionLoop_hand [OF p l g])
  show "isCountingDownRef (fire s e) =
           (isCountingDownRef s \<or> (g = L_SHAPE_PHOTO \<and> photoModeDebounceRef s \<ge> 10))"
    by (simp add: f modeBranch_frame photoBranch_sub)
  show "photoModeDebounceRef (fire s e) =
           (if g = L_SHAPE_PHOTO then (if isCountingDownRef s then photoModeDebounceRef s else photoModeDebounceRef s + 1) else 0)"
    by (simp add: f modeBranch_frame photoBranch_sub)
  show "intervals (fire s e) =
           (if g = L_SHAPE_PHOTO \<and> \<not> isCountingDownRef s \<and> photoModeDebounceRef s \<ge> 10 then intervals s @ [3] else intervals s)"
    by (simp add: f modeBranch_frame photoBranch_sub)
  show "countdown (fire s e) =
           (if g = L_SHAPE_PHOTO \<and> \<not> isCountingDownRef s \<and> photoModeDebounceRef s \<ge> 10 then Some 3 else countdown s)"
    by (simp add: f modeBranch_frame photoBranch_sub)
  show "particlesRef (fire s e) = particlesRef s"
    by (simp add: f modeBranch_frame photoBranch_frame)
qed

lemma animate_sub:
  "isCountingDownRef (animate t s) = isCountingDownRef s"
  "photoModeDebounceRef (animate t s) = photoModeDebounceRef s"
  "intervals (animate t s) = intervals s"
  "countdown (animate t s) = countdown s"
  by (simp_all add: animate_def Let_def)

lemma visionLoop_unlabelled:
  assumes "frameLabel s (Vision v) = None"
  shows "isCountingDownRef (visionLoop v s) = isCountingDownRef s"
    and "photoModeDebounceRef (visionLoop v s) = photoModeDebounceRef s"
    and "intervals (visionLoop v s) = intervals s"
    and "countdown (visionLoop v s) = countdown s"
    and "particlesRef (visionLoop v s) = particlesRef s"
  using assms
  by (auto simp add: frameLabel_def visionLoop_def processed_def split: list.splits sum.splits if_splits)

lemma fire_unlabelled:
  assumes "frameLabel s e = None" "\<And>k env. e \<noteq> IntervalFire k env"
  shows "isCountingDownRef (fire s e) = isCountingDownRef s"
    and "photoModeDebounceRef (fire s e) = photoModeDebounceRef s"
    and "intervals (fire s e) = intervals s"
    and "countdown (fire s e) = countdown s"
  using assms
  by (cases e; simp add: fire_def animate_sub visionLoop_unlabelled)+

lemma frameLabel_IntervalFire: "frameLabel s (IntervalFire k env) = None"
  by (simp add: frameLabel_def)

lemma capturePhoto_sub:
  "isCountingDownRef (capturePhoto env s) = isCountingDownRef s"
  "photoModeDebounceRef (capturePhoto env s) = photoModeDebounceRef s"
  "intervals (capturePhoto env s) = intervals s"
  "countdown (capturePhoto env s) = countdown s"
  "flashTimeouts (capturePhoto env s) = flashTimeouts s"
  by (simp_all add: capturePhoto_def)

lemma intervalCallback_none: "intervals s = [] \<Longrightarrow> intervalCallback k env s = s"
  by (simp add: intervalCallback_def)

lemma intervalCallback_single:
  assumes "intervals s = [c]"
  shows "intervals (intervalCallback k env s) = (if k = 0 then (if c - 1 > 0 then [c - 1] else []) else [c])"
    and "isCountingDownRef (intervalCallback k env s) = (if k = 0 \<and> \<not> c - 1 > 0 then False else isCountingDownRef s)"
    and "photoModeDebounceRef (intervalCallback k env s) = (if k = 0 \<and> \<not> c - 1 > 0 then 0 else photoModeDebounceRef s)"
  using assms by (auto simp add: intervalCallback_def Let_def capturePhoto_sub)

lemma consecutiveL_reset: "consecutiveL ps es 0"
  unfolding consecutiveL_def by (rule exI [of _ es], rule exI [of _ "[]"]) simp

lemma consecutiveL_skip:
  assumes "consecutiveL ps es n" "\<not> isCountingDownRef (run (initApp ps) es)"
    "frameLabel (run (initApp ps) es) e = None"
  shows "consecutiveL ps (es @ [e]) n"
proof -
  from assms(1) obtain pre mid where es: "es = pre @ mid"
    and idle: "idleAlong (run (initApp ps) pre) mid"
    and labels: "frameLabels (run (initApp ps) pre) mid = replicate n L_SHAPE_PHOTO"
    unfolding consecutiveL_def by blast
  have r: "run (run (initApp ps) pre) mid = run (initApp ps) es"
    by (simp add: es run_append)
  have "es @ [e] = pre @ (mid @ [e])" by (simp add: es)
  moreover have "idleAlong (run (initApp ps) pre) (mid @ [e])"
    using idle assms(2) by (simp add: idleAlong_append r)
  moreover have "frameLabels (run (initApp ps) pre) (mid @ [e]) = replicate n L_SHAPE_PHOTO"
    using labels assms(3) by (simp add: frameLabels_append r)
  ultimately show ?thesis unfolding consecutiveL_def by blast
qed

lemma consecutiveL_count:
  assumes "consecutiveL ps es n" "\<not> isCountingDownRef (run (initApp ps) es)"
    "frameLabel (run (initApp ps) es) e = Some L_SHAPE_PHOTO"
  shows "consecutiveL ps (es @ [e]) (Suc n)"
proof -
  from assms(1) obtain pre mid where es: "es = pre @ mid"
    and idle: "idleAlong (run (initApp ps) pre) mid"
    and labels: "frameLabels (run (initApp ps) pre) mid = replicate n L_SHAPE_PHOTO"
    unfolding consecutiveL_def by blast
  have r: "run (run (initApp ps) pre) mid = run (initApp ps) es"
    by (simp add: es run_append)
  have "es @ [e] = pre @ (mid @ [e])" by (simp add: es)
  moreover have "idleAlong (run (initApp ps) pre) (mid @ [e])"
    using idle assms(2) by (simp add: idleAlong_append r)
  moreover have "frameLabels (run (initApp ps) pre) (mid @ [e]) = replicate (Suc n) L_SHAPE_PHOTO"
    using labels assms(3) by (simp add: frameLabels_append r replicate_append_same)
  ultimately show ?thesis unfolding consecutiveL_def by blast
qed

lemma photoInv_step:
  assumes inv: "photoInv ps es"
  shows "photoInv ps (es @ [e])"
proof -
  define s where "s = run (initApp ps) es"
  have s': "run (initApp ps) (es @ [e]) = fire s e"
    by (simp add: s_def run_snoc)
  show ?thesis
  proof (cases "isCountingDownRef s")
    case counting: True
    with inv obtain c where c: "intervals s = [c]"
      by (auto simp add: photoInv_def s_def Let_def)
    show ?thesis
    proof (cases "frameLabel s e")
      case (Some g)
      from fire_labelled [OF Some] counting c show ?thesis
        by (simp add: photoInv_def s' Let_def)
    next
      case None
      show ?thesis
      proof (cases "\<exists>k env. e = IntervalFire k env")
        case True
        then obtain k env where e: "e = IntervalFire k env" by blast
        have f: "fire s e = intervalCallback k env s"
          by (simp add: e fire_def)
        from intervalCallback_single [OF c, of k env] counting show ?thesis
          by (simp add: photoInv_def s' Let_def f consecutiveL_reset)
      next
        case False
        then have "\<And>k env. e \<noteq> IntervalFire k env" by blast
        from fire_unlabelled [OF None this] counting c show ?thesis
          by (simp add: photoInv_def s' Let_def)
      qed
    qed
  next
    case idle: False
    with inv have i: "intervals s = []" and le: "photoModeDebounceRef s \<le> 10"
      and cl: "consecutiveL ps es (photoModeDebounceRef s)"
      by (auto simp add: photoInv_def s_def Let_def)
    have idle': "\<not> isCountingDownRef (run (initApp ps) es)"
      using idle by (simp add: s_def)
    show ?thesis
    proof (cases "frameLabel s e")
      case (Some g)
      note lab = fire_labelled [OF Some]
      show ?thesis
      proof (cases "g = L_SHAPE_PHOTO")
        case True
        have "consecutiveL ps (es @ [e]) (Suc (photoModeDebounceRef s))"
          using cl idle' Some True by (intro consecutiveL_count) (simp_all add: s_def)
        with lab idle i le True show ?thesis
          by (auto simp add: photoInv_def s' Let_def)
      next
        case False
        with lab idle i show ?thesis
          by (simp add: photoInv_def s' Let_def consecutiveL_reset)
      qed
    next
      case None
      have skip: "consecutiveL ps (es @ [e]) (photoModeDebounceRef s)"
        using cl idle' None by (intro consecutiveL_skip) (simp_all add: s_def)
      show ?thesis
      proof (cases "\<exists>k env. e = IntervalFire k env")
        case True
        then obtain k env where e: "e = IntervalFire k env" by blast
        have f: "fire s e = s"
          by (simp add: e fire_def intervalCallback_none [OF i])
        from skip idle i le show ?thesis
          by (simp add: photoInv_def s' Let_def f)
      next
        case False
        then have "\<And>k env. e \<noteq> IntervalFire k env" by blast
        from fire_unlabelled [OF None this] skip idle i le show ?thesis
          by (simp add: photoInv_def s' Let_def)
      qed
    qed
  qed
qed

lemma photoInv_run: "photoInv ps es"
proof (induction es rule: rev_induct)
  case Nil
  show ?case
    by (simp add: photoInv_def run_Nil initApp_def consecutiveL_reset)
next
  case (snoc e es)
  then show ?case by (rule photoInv_step)
qed

lemma visionLoop_frame:
  "rotationOffsetRef (visionLoop v s) = rotationOffsetRef s"
  "particlesRef (visionLoop v s) = particlesRef s"
  by (simp_all add: visionLoop_def Let_def modeBranch_frame photoBranch_frame
        split: list.split sum.split)

lemma intervalCallback_frame:
  "rotationOffsetRef (intervalCallback k env s) = rotationOffsetRef s"
  "rotationSpeedRef (intervalCallback k env s) = rotationSpeedRef s"
  "modeRef (intervalCallback k env s) = modeRef s"
  "gestureRef (intervalCallback k env s) = gestureRef s"
  by (simp_all add: intervalCallback_def Let_def capturePhoto_def)

lemma animate_frame:
  "rotationOffsetRef (animate t s) = rotationOffsetRef s + rotationSpeedRef s"
  "rotationSpeedRef (animate t s) = rotationSpeedRef s"
  "modeRef (animate t s) = modeRef s"
  "gestureRef (animate t s) = gestureRef s"
  "length (particlesRef (animate t s)) = length (particlesRef s)"
  by (simp_all add: animate_def Let_def)

lemma rotationOffset_fire:
  "rotationOffsetRef (fire s e) =
     (case e of RenderTick t \<Rightarrow> rotationOffsetRef s + rotationSpeedRef s | _ \<Rightarrow> rotationOffsetRef s)"
  by (cases e) (simp_all add: fire_def visionLoop_frame intervalCallback_frame animate_frame)

lemma rotationOffset_run: "rotationOffsetRef (run s es) = rotationOffsetRef s + spinSum s es"
  by (induction es arbitrary: s) (simp_all add: run_Nil run_Cons rotationOffset_fire split: Event.split)

text \<open>
  C7, as amended. Every render tick adds the current rotation speed to the rotation offset,
  no other event changes the offset, and so after any run the offset is its start value
  plus the speeds added by the ticks; a tick does not decrease it when the speed is not
  negative.
\<close>

theorem rotationOffset_accumulates:
  "rotationOffsetRef (fire s (RenderTick t)) = rotationOffsetRef s + rotationSpeedRef s
   \<and> ((\<forall>t'. e \<noteq> RenderTick t') \<longrightarrow> rotationOffsetRef (fire s e) = rotationOffsetRef s)
   \<and> (0 \<le> rotationSpeedRef s \<longrightarrow> rotationOffsetRef s \<le> rotationOffsetRef (fire s (RenderTick t)))
   \<and> rotationOffsetRef (run s es) = rotationOffsetRef s + spinSum s es"
  by (cases e) (simp_all add: rotationOffset_fire rotationOffset_run)

lemma setup_state:
  "run (initApp ps) [SetupDone] = (initApp ps)\<lparr>appMode := TREE, modeRef := TREE, visionLoopState := Running\<rparr>"
  by (simp add: run_def fire_def initApp_def)

lemma visionLoop_speed:
  assumes "processed s v" "landmarks v = lm # others" "detectGesture lm = Inr g"
  shows "rotationSpeedRef (visionLoop v s) =
     (if g = L_SHAPE_PHOTO \<or> g = FIST then 0.005
      else if g = PINCH_ZOOM then 0.002
      else if g = OPEN_ROTATE then (case js_index lm 0 of None \<Rightarrow> rotationSpeedRef s | Some w \<Rightarrow> (lx w - 0.5) * 0.02)
      else rotationSpeedRef s)"
  by (cases g)
     (simp_all add: visionLoop_hand [OF assms] modeBranch_def photoBranch_def Let_def enterScatter_def
        split: option.split)

lemma processed_after_setup:
  "2 \<le> readyState v \<Longrightarrow> currentTime v \<noteq> - 1 \<Longrightarrow> processed (run (initApp ps) [SetupDone]) v"
  unfolding setup_state by (simp add: processed_def initApp_def)

text \<open>
  An open hand left of the middle (wrist at x = 0.2) sets a negative speed, and the next
  tick decreases the offset.
\<close>

theorem rotationOffset_not_monotone:
  "rotationOffsetRef (run (initApp []) [SetupDone, Vision (handFrame 0 openHand), RenderTick 0])
     < rotationOffsetRef (run (initApp []) [SetupDone, Vision (handFrame 0 openHand)])"
proof -
  define s1 where "s1 = run (initApp []) [SetupDone]"
  define s2 where "s2 = fire s1 (Vision (handFrame 0 openHand))"
  have p: "processed s1 (handFrame 0 openHand)"
    unfolding s1_def by (rule processed_after_setup) (simp_all add: handFrame_def)
  have l: "landmarks (handFrame 0 openHand) = openHand # []"
    by (simp add: handFrame_def)
  have w: "js_index openHand 0 = Some (pt 0.2 0.9)"
    by (simp add: openHand_def js_index_def hand_nth)
  have speed: "rotationSpeedRef s2 < 0"
    unfolding s2_def by (simp add: fire_def visionLoop_speed [OF p l detect_openHand] w pt_def)
  have r2: "run (initApp []) [SetupDone, Vision (handFrame 0 openHand)] = s2"
    by (simp add: run_def s2_def s1_def)
  have r3: "run (initApp []) [SetupDone, Vision (handFrame 0 openHand), RenderTick 0] = fire s2 (RenderTick 0)"
    by (simp add: run_def s2_def s1_def)
  show ?thesis
    unfolding r2 r3 using speed by (simp add: rotationOffset_fire)
qed

text \<open>
  C8, as amended. Without a video element (\<^verbatim>\<open>videoRef.current\<close> is null) the capture
  does nothing: no particle is made, and the countdown that completes then ends idle with
  its timer cleared and no new one started. The capture does not look at the readiness of
  the video. A capture with the video element and a canvas context appends exactly one
  particle, of type PHOTO, behind the particles that were there, and so does the countdown
  that completes then.
\<close>

theorem capturePhoto_effect:
  "(\<not> videoRefCurrent env \<longrightarrow> capturePhoto env s = s)
   \<and> (\<not> videoRefCurrent env \<and> k < length (intervals s) \<and> intervals s ! k \<le> 1 \<longrightarrow>
        particlesRef (fire s (IntervalFire k env)) = particlesRef s
        \<and> \<not> isCountingDownRef (fire s (IntervalFire k env))
        \<and> countdown (fire s (IntervalFire k env)) = None
        \<and> intervals (fire s (IntervalFire k env)) = take k (intervals s) @ drop (Suc k) (intervals s))
   \<and> capturePhoto (env\<lparr>videoReadyState := r\<rparr>) s = capturePhoto env s
   \<and> (videoRefCurrent env \<and> context2d env \<longrightarrow>
        particlesRef (capturePhoto env s) = particlesRef s @ [newPhoto env]
        \<and> ptype (newPhoto env) = PHOTO
        \<and> (k < length (intervals s) \<and> intervals s ! k \<le> 1 \<longrightarrow>
             particlesRef (fire s (IntervalFire k env)) = particlesRef s @ [newPhoto env]))"
  by (auto simp add: capturePhoto_def fire_def intervalCallback_def Let_def newPhoto_def)

lemma scaleLerp_frame:
  "position (mesh (scaleLerp k p)) = position (mesh p)"
  "treePos (scaleLerp k p) = treePos p"
  "scatterPos (scaleLerp k p) = scatterPos p"
  "velocity (scaleLerp k p) = velocity p"
  "ptype (scaleLerp k p) = ptype p"
  by (simp_all add: scaleLerp_def)

lemma particleTarget_snd:
  "snd (particleTarget m g t f p) = branchTarget m g f p"
  by (simp add: particleTarget_def branchTarget_def Let_def)

lemma particleTarget_fst:
  "position (mesh (fst (particleTarget m g t f p))) = position (mesh p)"
  "treePos (fst (particleTarget m g t f p)) = treePos p"
  "ptype (fst (particleTarget m g t f p)) = ptype p"
  "scatterPos (fst (particleTarget m g t f p)) =
     (if f \<or> (m = TREE \<and> g \<noteq> PINCH_ZOOM) then scatterPos p else v_add (scatterPos p) (velocity p))"
  "velocity (fst (particleTarget m g t f p)) =
     (if f \<or> (m = TREE \<and> g \<noteq> PINCH_ZOOM) then velocity p
      else if v_length (v_add (scatterPos p) (velocity p)) > SCATTER_RADIUS then v_negate (velocity p)
      else velocity p)"
  by (simp_all add: particleTarget_def Let_def scaleLerp_frame)

lemma animateParticle_eq:
  "animateParticle m g t nearest (i, p) =
     (fst (particleTarget m g t (isFocusing g nearest i p) p))
       \<lparr>mesh := (mesh (fst (particleTarget m g t (isFocusing g nearest i p) p)))
          \<lparr>position := v_lerp (position (mesh p)) (branchTarget m g (isFocusing g nearest i p) p) LERP_SPEED\<rparr>\<rparr>"
  by (simp add: animateParticle_def split_beta particleTarget_snd particleTarget_fst)

lemma animateParticle_fields:
  "position (mesh (animateParticle m g t nearest (i, p))) =
     v_lerp (position (mesh p)) (branchTarget m g (isFocusing g nearest i p) p) LERP_SPEED"
  "treePos (animateParticle m g t nearest (i, p)) = treePos p"
  "ptype (animateParticle m g t nearest (i, p)) = ptype p"
  "scatterPos (animateParticle m g t nearest (i, p)) =
     (if isFocusing g nearest i p \<or> (m = TREE \<and> g \<noteq> PINCH_ZOOM) then scatterPos p
      else v_add (scatterPos p) (velocity p))"
  "velocity (animateParticle m g t nearest (i, p)) =
     (if isFocusing g nearest i p \<or> (m = TREE \<and> g \<noteq> PINCH_ZOOM) then velocity p
      else if v_length (v_add (scatterPos p) (velocity p)) > SCATTER_RADIUS then v_negate (velocity p)
      else velocity p)"
  by (simp_all add: animateParticle_eq particleTarget_fst)

lemma animate_nth:
  assumes "i < length (particlesRef s)"
  shows "particlesRef (animate t s) ! i =
     animateParticle (modeRef s) (gestureRef s) t
       (nearestPhoto (gestureRef s) (rotationOffsetRef s + rotationSpeedRef s) (particlesRef s))
       (i, particlesRef s ! i)"
  using assms by (simp add: animate_def Let_def nth_enumerate_eq)

lemma v_length_negate: "v_length (v_negate v) = v_length v"
  by (simp add: v_length_def v_negate_def)

lemma v_lerp_fixed:
  assumes "alpha \<noteq> 1"
  shows "v_lerp a b alpha = b \<longleftrightarrow> a = b"
proof
  assume e: "v_lerp a b alpha = b"
  have "vx (v_lerp a b alpha) = vx b" "vy (v_lerp a b alpha) = vy b" "vz (v_lerp a b alpha) = vz b"
    using e by simp_all
  then have "(vx b - vx a) * (1 - alpha) = 0" "(vy b - vy a) * (1 - alpha) = 0" "(vz b - vz a) * (1 - alpha) = 0"
    by (simp_all add: v_lerp_def algebra_simps)
  with assms have "vx a = vx b" "vy a = vy b" "vz a = vz b" by simp_all
  then show "a = b" by simp
next
  assume "a = b" then show "v_lerp a b alpha = b" by (simp add: v_lerp_def)
qed

lemma fire_particles:
  "length (particlesRef s) \<le> length (particlesRef (fire s e))"
  "i < length (particlesRef s) \<Longrightarrow>
     v_length (velocity (particlesRef (fire s e) ! i)) = v_length (velocity (particlesRef s ! i))"
  "i < length (particlesRef s) \<Longrightarrow>
     scatterPos (particlesRef (fire s e) ! i) = scatterPos (particlesRef s ! i)
     \<or> scatterPos (particlesRef (fire s e) ! i) =
         v_add (scatterPos (particlesRef s ! i)) (velocity (particlesRef s ! i))"
proof -
  show "length (particlesRef s) \<le> length (particlesRef (fire s e))"
    by (cases e)
       (simp_all add: fire_def visionLoop_frame animate_frame intervalCallback_def Let_def capturePhoto_def)
  assume i: "i < length (particlesRef s)"
  show "v_length (velocity (particlesRef (fire s e) ! i)) = v_length (velocity (particlesRef s ! i))"
    using i
    by (cases e)
       (simp_all add: fire_def visionLoop_frame animate_nth animateParticle_fields v_length_negate
          intervalCallback_def Let_def capturePhoto_def nth_append)
  show "scatterPos (particlesRef (fire s e) ! i) = scatterPos (particlesRef s ! i)
     \<or> scatterPos (particlesRef (fire s e) ! i) =
         v_add (scatterPos (particlesRef s ! i)) (velocity (particlesRef s ! i))"
    using i
    by (cases e)
       (simp_all add: fire_def visionLoop_frame animate_nth animateParticle_fields
          intervalCallback_def Let_def capturePhoto_def nth_append)
qed

lemma run_velocity_length:
  "i < length (particlesRef s) \<Longrightarrow>
     i < length (particlesRef (run s es))
     \<and> v_length (velocity (particlesRef (run s es) ! i)) = v_length (velocity (particlesRef s ! i))"
proof (induction es arbitrary: s)
  case Nil
  then show ?case by (simp add: run_Nil)
next
  case (Cons e es)
  have "i < length (particlesRef (fire s e))"
    using Cons.prems fire_particles(1) [of s e] by simp
  from Cons.IH [OF this] fire_particles(2) [OF Cons.prems, of e] show ?case
    by (simp add: run_Cons)
qed

lemma lerpTicks_0: "lerpTicks T 0 p0 = p0" by (simp add: lerpTicks_def)
lemma lerpTicks_Suc: "lerpTicks T (Suc N) p0 = v_lerp (lerpTicks T N p0) T LERP_SPEED"
  by (simp add: lerpTicks_def)

lemma lerpTicks_closed:
  "lerpTicks T N p0 = v_add p0 (v_multiplyScalar (v_sub T p0) (1 - (1 - LERP_SPEED) ^ N))"
proof (induction N)
  case 0
  show ?case by (simp add: lerpTicks_0 v_add_def v_multiplyScalar_def)
next
  case (Suc N)
  show ?case
    unfolding lerpTicks_Suc Suc.IH
    by (simp add: v_lerp_def v_add_def v_multiplyScalar_def v_sub_def algebra_simps)
qed

lemma lerpTicks_distance:
  "v_distanceTo (lerpTicks T N p0) T = (1 - LERP_SPEED) ^ N * v_distanceTo p0 T"
proof -
  have k: "0 \<le> (1 - LERP_SPEED) ^ N" by (simp add: LERP_SPEED_def)
  have "v_sub (lerpTicks T N p0) T = v_multiplyScalar (v_sub p0 T) ((1 - LERP_SPEED) ^ N)"
    unfolding lerpTicks_closed
    by (simp add: v_add_def v_multiplyScalar_def v_sub_def algebra_simps)
  moreover have "v_length (v_multiplyScalar v c) = \<bar>c\<bar> * v_length v" for v c
  proof -
    have "vx v * c * (vx v * c) + vy v * c * (vy v * c) + vz v * c * (vz v * c)
        = c\<^sup>2 * (vx v * vx v + vy v * vy v + vz v * vz v)"
      by (simp add: algebra_simps power2_eq_square)
    then show ?thesis
      by (simp add: v_length_def v_multiplyScalar_def real_sqrt_mult)
  qed
  ultimately show ?thesis using k by (simp add: v_distanceTo_def)
qed

lemma photoBranch_loop:
  "lastVideoTime (photoBranch g s) = lastVideoTime s"
  "visionLoopState (photoBranch g s) = visionLoopState s"
  by (simp_all add: photoBranch_def Let_def)

lemma lshape_frame_state:
  assumes "processed s v" "landmarks v = lm # others" "detectGesture lm = Inr L_SHAPE_PHOTO"
  shows "lastVideoTime (visionLoop v s) = currentTime v"
    and "visionLoopState (visionLoop v s) = Running"
  using assms(1)
  by (simp_all add: visionLoop_hand [OF assms] modeBranch_other photoBranch_loop processed_def)

lemma frameLabel_handFrame:
  assumes "visionLoopState s = Running" "lastVideoTime s \<noteq> t" "detectGesture lm = Inr g"
  shows "frameLabel s (Vision (handFrame t lm)) = Some g"
  using assms by (auto simp add: frameLabel_def processed_def handFrame_def)

lemma lshapeFrames_Suc:
  "lshapeFrames (Suc n) = lshapeFrames n @ [Vision (handFrame (real n) lshapeHand)]"
  by (simp add: lshapeFrames_def)

lemma lshape_run:
  "n \<le> 10 \<Longrightarrow>
     \<not> isCountingDownRef (run (initApp ps) (SetupDone # lshapeFrames n))
     \<and> photoModeDebounceRef (run (initApp ps) (SetupDone # lshapeFrames n)) = n
     \<and> intervals (run (initApp ps) (SetupDone # lshapeFrames n)) = []
     \<and> visionLoopState (run (initApp ps) (SetupDone # lshapeFrames n)) = Running
     \<and> lastVideoTime (run (initApp ps) (SetupDone # lshapeFrames n)) = real n - 1
     \<and> particlesRef (run (initApp ps) (SetupDone # lshapeFrames n)) = ps"
proof (induction n)
  case 0
  show ?case
    by (simp add: lshapeFrames_def setup_state) (simp add: initApp_def)
next
  case (Suc n)
  define s where "s = run (initApp ps) (SetupDone # lshapeFrames n)"
  define v where "v = handFrame (real n) lshapeHand"
  from Suc have IH: "\<not> isCountingDownRef s" "photoModeDebounceRef s = n" "intervals s = []"
    "visionLoopState s = Running" "lastVideoTime s = real n - 1" "particlesRef s = ps"
    by (simp_all add: s_def)
  have r: "run (initApp ps) (SetupDone # lshapeFrames (Suc n)) = fire s (Vision v)"
    unfolding lshapeFrames_Suc s_def v_def
    using run_snoc [of "initApp ps" "SetupDone # lshapeFrames n"] by simp
  have p: "processed s v" by (simp add: processed_def IH v_def handFrame_def)
  have l: "landmarks v = lshapeHand # []" by (simp add: v_def handFrame_def)
  have lab: "frameLabel s (Vision v) = Some L_SHAPE_PHOTO"
    unfolding v_def by (rule frameLabel_handFrame) (simp_all add: IH detect_lshapeHand)
  have f: "fire s (Vision v) = visionLoop v s" by (simp add: fire_def)
  from Suc.prems have "n < 10" by simp
  with fire_labelled [OF lab] IH lshape_frame_state [OF p l detect_lshapeHand] show ?case
    unfolding r by (simp add: f [symmetric]) (simp add: f v_def handFrame_def)
qed


lemma intervalCallback_single_more:
  assumes "intervals s = [c]"
  shows "particlesRef (intervalCallback 0 env s) =
           (if c - 1 > 0 then particlesRef s else particlesRef (capturePhoto env s))"
    and "countdown (intervalCallback 0 env s) = (if c - 1 > 0 then Some (c - 1) else None)"
  using assms by (auto simp add: intervalCallback_def Let_def capturePhoto_def)

lemma countdown_started:
  "isCountingDownRef (run (initApp ps) (SetupDone # lshapeFrames 11))
   \<and> photoModeDebounceRef (run (initApp ps) (SetupDone # lshapeFrames 11)) = 11
   \<and> intervals (run (initApp ps) (SetupDone # lshapeFrames 11)) = [3]
   \<and> countdown (run (initApp ps) (SetupDone # lshapeFrames 11)) = Some 3
   \<and> particlesRef (run (initApp ps) (SetupDone # lshapeFrames 11)) = ps
   \<and> visionLoopState (run (initApp ps) (SetupDone # lshapeFrames 11)) = Running
   \<and> lastVideoTime (run (initApp ps) (SetupDone # lshapeFrames 11)) = 10"
proof -
  define s where "s = run (initApp ps) (SetupDone # lshapeFrames 10)"
  define v where "v = handFrame 10 lshapeHand"
  from lshape_run [of 10 ps] have IH: "\<not> isCountingDownRef s" "photoModeDebounceRef s = 10"
    "intervals s = []" "visionLoopState s = Running" "lastVideoTime s = 9" "particlesRef s = ps"
    by (simp_all add: s_def)
  have eleven: "lshapeFrames 11 = lshapeFrames 10 @ [Vision v]"
    using lshapeFrames_Suc [of 10] by (simp add: v_def)
  have r: "run (initApp ps) (SetupDone # lshapeFrames 11) = fire s (Vision v)"
    unfolding eleven s_def
    using run_snoc [of "initApp ps" "SetupDone # lshapeFrames 10"] by simp
  have p: "processed s v" by (simp add: processed_def IH v_def handFrame_def)
  have l: "landmarks v = lshapeHand # []" by (simp add: v_def handFrame_def)
  have lab: "frameLabel s (Vision v) = Some L_SHAPE_PHOTO"
    unfolding v_def by (rule frameLabel_handFrame) (simp_all add: IH detect_lshapeHand)
  have f: "fire s (Vision v) = visionLoop v s" by (simp add: fire_def)
  from fire_labelled [OF lab] IH lshape_frame_state [OF p l detect_lshapeHand] show ?thesis
    unfolding r by (simp add: f [symmetric]) (simp add: f v_def handFrame_def)
qed

lemma countdown_last_second:
  "isCountingDownRef (run (initApp ps) (SetupDone # lshapeFrames 11 @ [IntervalFire 0 env1, IntervalFire 0 env2]))
   \<and> intervals (run (initApp ps) (SetupDone # lshapeFrames 11 @ [IntervalFire 0 env1, IntervalFire 0 env2])) = [1]
   \<and> countdown (run (initApp ps) (SetupDone # lshapeFrames 11 @ [IntervalFire 0 env1, IntervalFire 0 env2])) = Some 1
   \<and> particlesRef (run (initApp ps) (SetupDone # lshapeFrames 11 @ [IntervalFire 0 env1, IntervalFire 0 env2])) = ps"
proof -
  define s where "s = run (initApp ps) (SetupDone # lshapeFrames 11)"
  define s1 where "s1 = fire s (IntervalFire 0 env1)"
  have r: "run (initApp ps) (SetupDone # lshapeFrames 11 @ [IntervalFire 0 env1, IntervalFire 0 env2])
      = fire s1 (IntervalFire 0 env2)"
    using run_append [of "initApp ps" "SetupDone # lshapeFrames 11" "[IntervalFire 0 env1, IntervalFire 0 env2]"]
    by (simp add: s_def s1_def run_Cons run_Nil)
  from countdown_started [of ps] have a: "isCountingDownRef s" "intervals s = [3]" "particlesRef s = ps"
    by (simp_all add: s_def)
  have b: "isCountingDownRef s1" "intervals s1 = [2]" "particlesRef s1 = ps"
    using intervalCallback_single [OF a(2), of 0 env1] intervalCallback_single_more [OF a(2), of env1] a
    by (simp_all add: s1_def fire_def)
  show ?thesis
    using intervalCallback_single [OF b(2), of 0 env2] intervalCallback_single_more [OF b(2), of env2] b
    by (simp add: r fire_def)
qed

lemma countdown_step:
  assumes "k < length (intervals s)"
  shows "if intervals s ! k - 1 > 0
         then particlesRef (fire s (IntervalFire k env)) = particlesRef s
              \<and> intervals (fire s (IntervalFire k env)) = (intervals s)[k := intervals s ! k - 1]
              \<and> countdown (fire s (IntervalFire k env)) = Some (intervals s ! k - 1)
              \<and> isCountingDownRef (fire s (IntervalFire k env)) = isCountingDownRef s
              \<and> photoModeDebounceRef (fire s (IntervalFire k env)) = photoModeDebounceRef s
         else particlesRef (fire s (IntervalFire k env)) = particlesRef (capturePhoto env s)
              \<and> intervals (fire s (IntervalFire k env)) = take k (intervals s) @ drop (Suc k) (intervals s)
              \<and> countdown (fire s (IntervalFire k env)) = None
              \<and> \<not> isCountingDownRef (fire s (IntervalFire k env))
              \<and> photoModeDebounceRef (fire s (IntervalFire k env)) = 0"
  using assms by (simp add: fire_def intervalCallback_def Let_def capturePhoto_def)

lemma countdown_starts_only_debounced:
  assumes "\<not> isCountingDownRef (run (initApp ps) es)"
    and "isCountingDownRef (run (initApp ps) (es @ [e]))"
  shows "frameLabel (run (initApp ps) es) e = Some L_SHAPE_PHOTO \<and> consecutiveL ps (es @ [e]) 11"
proof -
  define s where "s = run (initApp ps) es"
  have idle: "\<not> isCountingDownRef s" using assms(1) by (simp add: s_def)
  have after: "isCountingDownRef (fire s e)" using assms(2) by (simp add: s_def run_snoc)
  from photoInv_run [of ps es] idle have i: "intervals s = []" and le: "photoModeDebounceRef s \<le> 10"
    and cl: "consecutiveL ps es (photoModeDebounceRef s)"
    by (auto simp add: photoInv_def s_def Let_def)
  show ?thesis
  proof (cases "frameLabel s e")
    case None
    show ?thesis
    proof (cases "\<exists>k env. e = IntervalFire k env")
      case True
      then obtain k env where "e = IntervalFire k env" by blast
      then have "fire s e = s" by (simp add: fire_def intervalCallback_none [OF i])
      with idle after show ?thesis by simp
    next
      case False
      then have "\<And>k env. e \<noteq> IntervalFire k env" by blast
      from fire_unlabelled(1) [OF None this] idle after show ?thesis by simp
    qed
  next
    case (Some g)
    from fire_labelled(1) [OF Some] idle after
    have g: "g = L_SHAPE_PHOTO" and ge: "10 \<le> photoModeDebounceRef s" by simp_all
    from ge le have ten: "photoModeDebounceRef s = 10" by simp
    have "consecutiveL ps (es @ [e]) (Suc 10)"
      using cl assms(1) Some g unfolding ten by (intro consecutiveL_count) (simp_all add: s_def)
    with Some g show ?thesis by (simp add: s_def)
  qed
qed

lemma one_countdown_at_a_time:
  "length (intervals (run (initApp ps) es)) \<le> 1
   \<and> (isCountingDownRef (run (initApp ps) es) \<longleftrightarrow> intervals (run (initApp ps) es) \<noteq> [])"
  using photoInv_run [of ps es] by (auto simp add: photoInv_def Let_def split: if_splits)

text \<open>
  The debounce over the frames that show a hand. In a run from the start state a countdown
  starts only at a frame classified L_SHAPE_PHOTO that ends a stretch of eleven classified
  frames, all L_SHAPE_PHOTO and all met while the photo sub-state is idle; frames without
  a hand are not classified and are passed over. A classified frame with any other label sets the
  debounce counter to zero; an L-shape frame met while counting down leaves the counter and
  the timers as they are. At most one countdown timer is ever live. A timer firing that
  brings its count to zero calls the capture once, clears the timer and returns the
  sub-state to idle with the debounce counter at zero; a firing before that captures
  nothing.
\<close>

theorem photo_countdown_debounce:
  "(\<not> isCountingDownRef (run (initApp ps) es) \<and> isCountingDownRef (run (initApp ps) (es @ [e]))
      \<longrightarrow> frameLabel (run (initApp ps) es) e = Some L_SHAPE_PHOTO \<and> consecutiveL ps (es @ [e]) 11)
   \<and> (frameLabel s e1 = Some g \<longrightarrow>
        photoModeDebounceRef (fire s e1) =
          (if g = L_SHAPE_PHOTO
           then (if isCountingDownRef s then photoModeDebounceRef s else photoModeDebounceRef s + 1)
           else 0)
        \<and> intervals (fire s e1) =
          (if g = L_SHAPE_PHOTO \<and> \<not> isCountingDownRef s \<and> photoModeDebounceRef s \<ge> 10
           then intervals s @ [3] else intervals s)
        \<and> isCountingDownRef (fire s e1) =
          (isCountingDownRef s \<or> (g = L_SHAPE_PHOTO \<and> photoModeDebounceRef s \<ge> 10)))
   \<and> length (intervals (run (initApp ps) es)) \<le> 1
   \<and> (isCountingDownRef (run (initApp ps) es) \<longleftrightarrow> intervals (run (initApp ps) es) \<noteq> [])
   \<and> (k < length (intervals s) \<longrightarrow>
        (if intervals s ! k - 1 > 0
         then particlesRef (fire s (IntervalFire k env)) = particlesRef s
              \<and> intervals (fire s (IntervalFire k env)) = (intervals s)[k := intervals s ! k - 1]
              \<and> countdown (fire s (IntervalFire k env)) = Some (intervals s ! k - 1)
              \<and> isCountingDownRef (fire s (IntervalFire k env)) = isCountingDownRef s
              \<and> photoModeDebounceRef (fire s (IntervalFire k env)) = photoModeDebounceRef s
         else particlesRef (fire s (IntervalFire k env)) = particlesRef (capturePhoto env s)
              \<and> intervals (fire s (IntervalFire k env)) = take k (intervals s) @ drop (Suc k) (intervals s)
              \<and> countdown (fire s (IntervalFire k env)) = None
              \<and> \<not> isCountingDownRef (fire s (IntervalFire k env))
              \<and> photoModeDebounceRef (fire s (IntervalFire k env)) = 0))"
  using countdown_starts_only_debounced [of ps es e] fire_labelled(1,2,3) [of s e1 g]
    one_countdown_at_a_time [of ps es] countdown_step [of k s env]
  by blast

lemma first_frame:
  assumes "detectGesture lm = Inr g"
  shows "run (initApp ps) [SetupDone, Vision (handFrame 0 lm)] =
     modeBranch g lm (photoBranch g
       ((initApp ps)\<lparr>appMode := TREE, modeRef := TREE, visionLoopState := Running,
                     lastVideoTime := 0, gestureRef := g\<rparr>))"
proof -
  have p: "processed (run (initApp ps) [SetupDone]) (handFrame 0 lm)"
    by (rule processed_after_setup) (simp_all add: handFrame_def)
  have l: "landmarks (handFrame 0 lm) = lm # []" by (simp add: handFrame_def)
  have "run (initApp ps) [SetupDone, Vision (handFrame 0 lm)]
      = visionLoop (handFrame 0 lm) (run (initApp ps) [SetupDone])"
    by (simp add: run_def fire_def)
  also have "\<dots> = modeBranch g lm (photoBranch g
       ((run (initApp ps) [SetupDone])\<lparr>lastVideoTime := currentTime (handFrame 0 lm), gestureRef := g\<rparr>))"
    by (rule visionLoop_hand [OF p l assms])
  finally show ?thesis
    by (simp add: setup_state handFrame_def)
qed

lemma pinchScene_fields:
  "gestureRef pinchScene = PINCH_ZOOM" "modeRef pinchScene = SCATTER"
  "particlesRef pinchScene = [snapshot, ornament]" "rotationSpeedRef pinchScene = 0.002"
  "rotationOffsetRef pinchScene = 0" "visionLoopState pinchScene = Running"
  "lastVideoTime pinchScene = 0" "photoModeDebounceRef pinchScene = 0"
  unfolding pinchScene_def first_frame [OF detect_pinchHand]
  by (simp_all add: modeBranch_def photoBranch_def enterScatter_def initApp_def)

lemma openScene_fields:
  "gestureRef openScene = OPEN_ROTATE" "modeRef openScene = SCATTER"
  "particlesRef openScene = [ornament]" "rotationSpeedRef openScene = - 0.006"
  "rotationOffsetRef openScene = 0"
proof -
  have w: "js_index openHand 0 = Some (pt 0.2 0.9)"
    by (simp add: openHand_def js_index_def hand_nth)
  show "gestureRef openScene = OPEN_ROTATE" "modeRef openScene = SCATTER"
    "particlesRef openScene = [ornament]" "rotationSpeedRef openScene = - 0.006"
    "rotationOffsetRef openScene = 0"
    unfolding openScene_def first_frame [OF detect_openHand]
    by (simp_all add: modeBranch_def photoBranch_def enterScatter_def initApp_def w Let_def pt_def)
qed

lemma treeScene_fields:
  "gestureRef treeScene = NONE" "modeRef treeScene = TREE" "particlesRef treeScene = [ornament]"
  unfolding treeScene_def setup_state by (simp_all add: initApp_def)

lemma v_add_set: "v_add (v_set a b c) (v_set a' b' c') = v_set (a + a') (b + b') (c + c')"
  by (simp add: v_add_def v_set_def)

lemma v_length_axis: "v_length (v_set a 0 0) = \<bar>a\<bar>"
  by (simp add: v_length_def v_set_def)

lemma v_lerp_set:
  "v_lerp (v_set a b c) (v_set a' b' c') k = v_set (a + (a' - a) * k) (b + (b' - b) * k) (c + (c' - c) * k)"
  by (simp add: v_lerp_def v_set_def)

lemma v_set_eq: "v_set a b c = v_set a' b' c' \<longleftrightarrow> a = a' \<and> b = b' \<and> c = c'"
  by (simp add: v_set_def)

lemma focused_pinchScene: "focused pinchScene 0" "\<not> focused pinchScene (Suc 0)"
  by (simp_all add: focused_def pinchScene_fields isFocusing_def nearestPhoto_def Let_def
        snapshot_def ornament_def)

text \<open>
  While the gesture is PINCH_ZOOM the nearest photo is pulled towards (0, 5, 55), which is
  neither its treePos nor its scatterPos.
\<close>

theorem focused_photo_target_is_neither:
  "position (mesh (particlesRef (animate 0 pinchScene) ! 0)) =
     v_lerp (position (mesh (particlesRef pinchScene ! 0))) (v_set 0 5 55) LERP_SPEED
   \<and> position (mesh (particlesRef (animate 0 pinchScene) ! 0)) \<noteq>
     v_lerp (position (mesh (particlesRef pinchScene ! 0)))
        (treePos (particlesRef (animate 0 pinchScene) ! 0)) LERP_SPEED
   \<and> position (mesh (particlesRef (animate 0 pinchScene) ! 0)) \<noteq>
     v_lerp (position (mesh (particlesRef pinchScene ! 0)))
        (scatterPos (particlesRef (animate 0 pinchScene) ! 0)) LERP_SPEED"
proof -
  have i: "0 < length (particlesRef pinchScene)" by (simp add: pinchScene_fields)
  have f: "isFocusing (gestureRef pinchScene)
       (nearestPhoto (gestureRef pinchScene) (rotationOffsetRef pinchScene + rotationSpeedRef pinchScene)
          (particlesRef pinchScene)) 0 (particlesRef pinchScene ! 0)"
    using focused_pinchScene(1) by (simp add: focused_def)
  show ?thesis
    unfolding animate_nth [OF i] animateParticle_fields
    using f
    by (simp add: branchTarget_def pinchScene_fields snapshot_def v_lerp_set v_set_eq LERP_SPEED_def)
qed

text \<open>
  C3, as amended. A tick replaces each particle's mesh position by the linear
  interpolation, with factor LERP_SPEED, from the old position towards one target: the
  fixed point (0, 5, 55) for the photo in focus, and for every other particle its treePos
  when the mode is TREE and the gesture is not PINCH_ZOOM, its scatterPos (as advanced in
  this tick) otherwise. The new position is the target only if the old one was.
\<close>

theorem position_lerps_to_target:
  assumes "i < length (particlesRef s)"
  shows "(let target =
            (if focused s i then v_set 0 5 55
             else if modeRef s = TREE \<and> gestureRef s \<noteq> PINCH_ZOOM
                  then treePos (particlesRef (animate t s) ! i)
                  else scatterPos (particlesRef (animate t s) ! i))
          in position (mesh (particlesRef (animate t s) ! i)) =
               v_lerp (position (mesh (particlesRef s ! i))) target LERP_SPEED
             \<and> (position (mesh (particlesRef (animate t s) ! i)) = target
                  \<longleftrightarrow> position (mesh (particlesRef s ! i)) = target))"
proof -
  have "LERP_SPEED \<noteq> 1" by (simp add: LERP_SPEED_def)
  then show ?thesis
    by (simp add: animate_nth [OF assms] animateParticle_fields focused_def branchTarget_def
        v_lerp_fixed Let_def)
qed

theorem position_lerps_to_target_witness:
  "Suc 0 < length (particlesRef pinchScene) \<and> \<not> focused pinchScene (Suc 0)
   \<and> position (mesh (particlesRef (animate 0 pinchScene) ! Suc 0)) = v_set 40.75075 9.75 0
   \<and> scatterPos (particlesRef (animate 0 pinchScene) ! Suc 0) = v_set 70.03 0 0"
proof -
  have i: "Suc 0 < length (particlesRef pinchScene)" by (simp add: pinchScene_fields)
  have sp: "scatterPos (particlesRef (animate 0 pinchScene) ! Suc 0) = v_set 70.03 0 0"
    using focused_pinchScene(2)
    by (simp add: animate_nth [OF i] animateParticle_fields focused_def pinchScene_fields
        ornament_def v_add_set)
  from position_lerps_to_target [OF i, of 0] focused_pinchScene(2) sp i show ?thesis
    by (simp add: Let_def pinchScene_fields ornament_def v_lerp_set LERP_SPEED_def)
qed

lemma magnitude_v_length: "magnitude v = v_length v"
  by (simp add: magnitude_def v_length_def power2_eq_square)

lemma fire_velocity:
  assumes "i < length (particlesRef s)"
  shows "velocity (particlesRef (fire s e) ! i) = velocity (particlesRef s ! i)
     \<or> velocity (particlesRef (fire s e) ! i) =
         \<lparr>vx = - vx (velocity (particlesRef s ! i)), vy = - vy (velocity (particlesRef s ! i)),
          vz = - vz (velocity (particlesRef s ! i))\<rparr>"
  using assms
  by (cases e)
     (simp_all add: fire_def visionLoop_frame animate_nth animateParticle_fields v_negate_def
        intervalCallback_def Let_def capturePhoto_def nth_append)

lemma run_velocity:
  "i < length (particlesRef s) \<Longrightarrow>
     velocity (particlesRef (run s es) ! i) = velocity (particlesRef s ! i)
     \<or> velocity (particlesRef (run s es) ! i) =
         \<lparr>vx = - vx (velocity (particlesRef s ! i)), vy = - vy (velocity (particlesRef s ! i)),
          vz = - vz (velocity (particlesRef s ! i))\<rparr>"
proof (induction es arbitrary: s)
  case Nil
  then show ?case by (simp add: run_Nil)
next
  case (Cons e es)
  have i': "i < length (particlesRef (fire s e))"
    using Cons.prems fire_particles(1) [of s e] by simp
  from Cons.IH [OF i'] fire_velocity [OF Cons.prems, of e] show ?case
    by (auto simp add: run_Cons)
qed

text \<open>
  C5. For a particle in scatter behaviour a tick adds the velocity to scatterPos,
  component by component, and when the magnitude of the new scatterPos is above the
  scatter radius 70 the velocity after the tick is the old one with every component
  negated (and the old one itself otherwise). Over any run the velocity is the start
  velocity or its negation, so its magnitude is what it was; and no event moves scatterPos
  other than by adding the velocity.
\<close>

theorem scatter_reflection:
  assumes "i < length (particlesRef s)"
  shows "(\<not> focused s i \<and> \<not> (modeRef s = TREE \<and> gestureRef s \<noteq> PINCH_ZOOM) \<longrightarrow>
           scatterPos (particlesRef (animate t s) ! i) =
             \<lparr>vx = vx (scatterPos (particlesRef s ! i)) + vx (velocity (particlesRef s ! i)),
              vy = vy (scatterPos (particlesRef s ! i)) + vy (velocity (particlesRef s ! i)),
              vz = vz (scatterPos (particlesRef s ! i)) + vz (velocity (particlesRef s ! i))\<rparr>
           \<and> velocity (particlesRef (animate t s) ! i) =
             (if magnitude (scatterPos (particlesRef (animate t s) ! i)) > 70
              then \<lparr>vx = - vx (velocity (particlesRef s ! i)),
                    vy = - vy (velocity (particlesRef s ! i)),
                    vz = - vz (velocity (particlesRef s ! i))\<rparr>
              else velocity (particlesRef s ! i)))
       \<and> (velocity (particlesRef (run s es) ! i) = velocity (particlesRef s ! i)
          \<or> velocity (particlesRef (run s es) ! i) =
              \<lparr>vx = - vx (velocity (particlesRef s ! i)), vy = - vy (velocity (particlesRef s ! i)),
               vz = - vz (velocity (particlesRef s ! i))\<rparr>)
       \<and> magnitude (velocity (particlesRef (run s es) ! i)) = magnitude (velocity (particlesRef s ! i))
       \<and> (scatterPos (particlesRef (fire s e) ! i) = scatterPos (particlesRef s ! i)
          \<or> scatterPos (particlesRef (fire s e) ! i) =
             \<lparr>vx = vx (scatterPos (particlesRef s ! i)) + vx (velocity (particlesRef s ! i)),
              vy = vy (scatterPos (particlesRef s ! i)) + vy (velocity (particlesRef s ! i)),
              vz = vz (scatterPos (particlesRef s ! i)) + vz (velocity (particlesRef s ! i))\<rparr>)"
proof -
  have a: "\<not> focused s i \<and> \<not> (modeRef s = TREE \<and> gestureRef s \<noteq> PINCH_ZOOM) \<longrightarrow>
           scatterPos (particlesRef (animate t s) ! i) =
             \<lparr>vx = vx (scatterPos (particlesRef s ! i)) + vx (velocity (particlesRef s ! i)),
              vy = vy (scatterPos (particlesRef s ! i)) + vy (velocity (particlesRef s ! i)),
              vz = vz (scatterPos (particlesRef s ! i)) + vz (velocity (particlesRef s ! i))\<rparr>
           \<and> velocity (particlesRef (animate t s) ! i) =
             (if magnitude (scatterPos (particlesRef (animate t s) ! i)) > 70
              then \<lparr>vx = - vx (velocity (particlesRef s ! i)),
                    vy = - vy (velocity (particlesRef s ! i)),
                    vz = - vz (velocity (particlesRef s ! i))\<rparr>
              else velocity (particlesRef s ! i))"
    by (simp add: animate_nth [OF assms] animateParticle_fields focused_def magnitude_v_length
        SCATTER_RADIUS_def v_add_def v_negate_def)
  have b: "magnitude (velocity (particlesRef (run s es) ! i)) = magnitude (velocity (particlesRef s ! i))"
    using run_velocity_length [OF assms, of es] by (simp add: magnitude_v_length)
  have c: "scatterPos (particlesRef (fire s e) ! i) = scatterPos (particlesRef s ! i)
          \<or> scatterPos (particlesRef (fire s e) ! i) =
             \<lparr>vx = vx (scatterPos (particlesRef s ! i)) + vx (velocity (particlesRef s ! i)),
              vy = vy (scatterPos (particlesRef s ! i)) + vy (velocity (particlesRef s ! i)),
              vz = vz (scatterPos (particlesRef s ! i)) + vz (velocity (particlesRef s ! i))\<rparr>"
    using fire_particles(3) [OF assms, of e] by (simp add: v_add_def)
  from a b c run_velocity [OF assms, of es] show ?thesis by blast
qed

theorem scatter_reflection_witness:
  "0 < length (particlesRef openScene) \<and> \<not> focused openScene 0
   \<and> \<not> (modeRef openScene = TREE \<and> gestureRef openScene \<noteq> PINCH_ZOOM)
   \<and> scatterPos (particlesRef openScene ! 0) = \<lparr>vx = 69.95, vy = 0, vz = 0\<rparr>
   \<and> velocity (particlesRef openScene ! 0) = \<lparr>vx = 0.08, vy = 0, vz = 0\<rparr>
   \<and> scatterPos (particlesRef (animate 0 openScene) ! 0) = \<lparr>vx = 70.03, vy = 0, vz = 0\<rparr>
   \<and> magnitude (scatterPos (particlesRef (animate 0 openScene) ! 0)) > 70
   \<and> velocity (particlesRef (animate 0 openScene) ! 0) = \<lparr>vx = - 0.08, vy = 0, vz = 0\<rparr>
   \<and> magnitude (velocity (particlesRef (run openScene [RenderTick 0, RenderTick 1]) ! 0)) = 0.08"
proof -
  have i: "0 < length (particlesRef openScene)" by (simp add: openScene_fields)
  have nf: "\<not> focused openScene 0"
    by (simp add: focused_def openScene_fields isFocusing_def)
  have m: "\<not> (modeRef openScene = TREE \<and> gestureRef openScene \<noteq> PINCH_ZOOM)"
    by (simp add: openScene_fields)
  have sp: "scatterPos (particlesRef openScene ! 0) = \<lparr>vx = 69.95, vy = 0, vz = 0\<rparr>"
    and ve: "velocity (particlesRef openScene ! 0) = \<lparr>vx = 0.08, vy = 0, vz = 0\<rparr>"
    by (simp_all add: openScene_fields ornament_def v_set_def)
  have mv: "magnitude \<lparr>vx = 0.08, vy = 0, vz = 0\<rparr> = 0.08"
    and ms: "magnitude \<lparr>vx = 70.03, vy = 0, vz = 0\<rparr> > 70"
    by (simp_all add: magnitude_def)
  note T = scatter_reflection [OF i, of 0 "[RenderTick 0, RenderTick 1]" "RenderTick 0"]
  from T nf m have p: "scatterPos (particlesRef (animate 0 openScene) ! 0) = \<lparr>vx = 70.03, vy = 0, vz = 0\<rparr>"
    unfolding sp ve by simp
  from T nf m have "velocity (particlesRef (animate 0 openScene) ! 0) =
             (if magnitude (scatterPos (particlesRef (animate 0 openScene) ! 0)) > 70
              then \<lparr>vx = - vx (velocity (particlesRef openScene ! 0)),
                    vy = - vy (velocity (particlesRef openScene ! 0)),
                    vz = - vz (velocity (particlesRef openScene ! 0))\<rparr>
              else velocity (particlesRef openScene ! 0))"
    by blast
  then have v: "velocity (particlesRef (animate 0 openScene) ! 0) = \<lparr>vx = - 0.08, vy = 0, vz = 0\<rparr>"
    unfolding p ve using ms by simp
  from T have "magnitude (velocity (particlesRef (run openScene [RenderTick 0, RenderTick 1]) ! 0))
      = magnitude (velocity (particlesRef openScene ! 0))"
    by blast
  then have r: "magnitude (velocity (particlesRef (run openScene [RenderTick 0, RenderTick 1]) ! 0)) = 0.08"
    unfolding ve mv .
  from i nf m sp ve p ms v r show ?thesis
    unfolding p by simp
qed

lemma ticks_in_tree:
  assumes "modeRef s = TREE" "gestureRef s \<noteq> PINCH_ZOOM" "i < length (particlesRef s)"
  shows "modeRef (run s (map RenderTick ts)) = TREE
     \<and> gestureRef (run s (map RenderTick ts)) = gestureRef s
     \<and> i < length (particlesRef (run s (map RenderTick ts)))
     \<and> treePos (particlesRef (run s (map RenderTick ts)) ! i) = treePos (particlesRef s ! i)
     \<and> position (mesh (particlesRef (run s (map RenderTick ts)) ! i)) =
         lerpTicks (treePos (particlesRef s ! i)) (length ts) (position (mesh (particlesRef s ! i)))"
proof (induction ts rule: rev_induct)
  case Nil
  show ?case using assms by (simp add: run_Nil lerpTicks_0)
next
  case (snoc t ts)
  define s' where "s' = run s (map RenderTick ts)"
  from snoc have IH: "modeRef s' = TREE" "gestureRef s' = gestureRef s" "i < length (particlesRef s')"
    "treePos (particlesRef s' ! i) = treePos (particlesRef s ! i)"
    "position (mesh (particlesRef s' ! i)) =
       lerpTicks (treePos (particlesRef s ! i)) (length ts) (position (mesh (particlesRef s ! i)))"
    by (simp_all add: s'_def)
  have r: "run s (map RenderTick (ts @ [t])) = animate t s'"
    by (simp add: s'_def run_snoc fire_def)
  show ?case
    unfolding r using IH assms(2)
    by (simp add: animate_frame animate_nth animateParticle_fields isFocusing_def branchTarget_def
        lerpTicks_Suc)
qed

lemma lerpTicks_segment:
  "\<exists>k. 0 \<le> k \<and> k \<le> 1 \<and> lerpTicks T N p0 = v_lerp p0 T k"
proof -
  have a: "0 \<le> (1 - LERP_SPEED) ^ N" by (simp add: LERP_SPEED_def)
  have b: "(1 - LERP_SPEED) ^ N \<le> 1" by (rule power_le_one) (simp_all add: LERP_SPEED_def)
  have "lerpTicks T N p0 = v_lerp p0 T (1 - (1 - LERP_SPEED) ^ N)"
    unfolding lerpTicks_closed
    by (simp add: v_lerp_def v_add_def v_multiplyScalar_def v_sub_def)
  with a b show ?thesis
    by (intro exI [of _ "1 - (1 - LERP_SPEED) ^ N"]) simp
qed

lemma lerpTicks_monotone:
  "v_distanceTo (lerpTicks T (Suc N) p0) T \<le> v_distanceTo (lerpTicks T N p0) T"
proof -
  have d: "0 \<le> v_distanceTo p0 T" by (simp add: v_distanceTo_def v_length_def)
  have "(1 - LERP_SPEED) ^ Suc N \<le> (1 - LERP_SPEED) ^ N"
    by (rule power_decreasing) (simp_all add: LERP_SPEED_def)
  then show ?thesis
    unfolding lerpTicks_distance using d by (rule mult_right_mono)
qed

text \<open>
  C6. With a fixed target T and the factor LERP_SPEED = 0.025, the position after N ticks
  is p0 + (T - p0) * (1 - (1 - 0.025)^N); its distance to T does not grow from one tick to
  the next; and it lies on the segment from p0 to T, so it never passes T. In TREE mode
  with a gesture other than PINCH_ZOOM the ticks of the animation are such a sequence for
  every particle, with its treePos as the target.
\<close>

theorem lerp_geometric_convergence:
  "LERP_SPEED = 0.025
   \<and> lerpTicks T N p0 = v_add p0 (v_multiplyScalar (v_sub T p0) (1 - (1 - LERP_SPEED) ^ N))
   \<and> v_distanceTo (lerpTicks T (Suc N) p0) T \<le> v_distanceTo (lerpTicks T N p0) T
   \<and> (\<exists>k. 0 \<le> k \<and> k \<le> 1 \<and> lerpTicks T N p0 = v_lerp p0 T k)
   \<and> (modeRef s = TREE \<and> gestureRef s \<noteq> PINCH_ZOOM \<and> i < length (particlesRef s) \<longrightarrow>
        position (mesh (particlesRef (run s (map RenderTick ts)) ! i)) =
          lerpTicks (treePos (particlesRef s ! i)) (length ts) (position (mesh (particlesRef s ! i))))"
  using lerpTicks_closed [of T N p0] lerpTicks_monotone [of T N p0] lerpTicks_segment [of T N p0]
    ticks_in_tree [of s i ts]
  by (simp add: LERP_SPEED_def)

theorem lerp_geometric_convergence_witness:
  "modeRef treeScene = TREE \<and> gestureRef treeScene \<noteq> PINCH_ZOOM \<and> 0 < length (particlesRef treeScene)
   \<and> position (mesh (particlesRef (run treeScene (map RenderTick [0, 1])) ! 0)) = v_set 38.025 10 0"
proof -
  have h: "modeRef treeScene = TREE" "gestureRef treeScene \<noteq> PINCH_ZOOM"
    "0 < length (particlesRef treeScene)"
    by (simp_all add: treeScene_fields)
  have v: "lerpTicks (v_set 0 10 0) 2 (v_set 40 10 0) = v_set 38.025 10 0"
    by (simp add: lerpTicks_def numeral_2_eq_2 v_lerp_set LERP_SPEED_def v_set_eq)
  from lerp_geometric_convergence [of "v_set 0 10 0" 2 "v_set 40 10 0" treeScene 0 "[0, 1]"] h
  have "position (mesh (particlesRef (run treeScene (map RenderTick [0, 1])) ! 0)) =
          lerpTicks (treePos (particlesRef treeScene ! 0)) (length [0::real, 1])
            (position (mesh (particlesRef treeScene ! 0)))"
    by blast
  also have "\<dots> = lerpTicks (v_set 0 10 0) 2 (v_set 40 10 0)"
    by (simp add: treeScene_fields ornament_def numeral_2_eq_2)
  finally show ?thesis using h v by simp
qed

lemma afterPinch_fields:
  "gestureRef afterPinch = PINCH_ZOOM" "rotationSpeedRef afterPinch = 0.002"
  "visionLoopState afterPinch = Running" "lastVideoTime afterPinch = 0"
  "photoModeDebounceRef afterPinch = 0" "modeRef afterPinch = SCATTER"
  "\<not> isCountingDownRef afterPinch"
  unfolding afterPinch_def first_frame [OF detect_pinchHand]
  by (simp_all add: modeBranch_def photoBranch_def enterScatter_def initApp_def)

lemma afterFiveL_fields:
  "photoModeDebounceRef afterFiveL = 5" "visionLoopState afterFiveL = Running"
  "lastVideoTime afterFiveL = 4" "\<not> isCountingDownRef afterFiveL"
  using lshape_run [of 5 "[]"] by (simp_all add: afterFiveL_def)

lemma countingScene_fields:
  "isCountingDownRef countingScene" "photoModeDebounceRef countingScene = 11"
  "intervals countingScene = [3]" "countdown countingScene = Some 3"
  "particlesRef countingScene = []" "visionLoopState countingScene = Running"
  "lastVideoTime countingScene = 10"
  using countdown_started [of "[]"] by (simp_all add: countingScene_def)

lemma lastSecondScene_fields:
  "isCountingDownRef lastSecondScene" "intervals lastSecondScene = [1]"
  "countdown lastSecondScene = Some 1" "particlesRef lastSecondScene = []"
  using countdown_last_second [of "[]" cameraOn cameraOn] by (simp_all add: lastSecondScene_def)

text \<open>
  After a pinch (speed 0.002) a frame classified NONE leaves the speed at 0.002, and after
  five L-shape frames a frame without a hand leaves the debounce counter at 5.
\<close>

theorem none_frame_keeps_speed:
  "processed afterPinch (handFrame 1 relaxedHand)
   \<and> landmarks (handFrame 1 relaxedHand) = [relaxedHand]
   \<and> detectGesture relaxedHand = Inr NONE
   \<and> rotationSpeedRef (visionLoop (handFrame 1 relaxedHand) afterPinch) = 0.002
   \<and> processed afterFiveL (emptyFrame 5)
   \<and> landmarks (emptyFrame 5) = []
   \<and> photoModeDebounceRef (visionLoop (emptyFrame 5) afterFiveL) = 5"
proof -
  have p1: "processed afterPinch (handFrame 1 relaxedHand)"
    by (simp add: processed_def afterPinch_fields handFrame_def)
  have l1: "landmarks (handFrame 1 relaxedHand) = relaxedHand # []"
    by (simp add: handFrame_def)
  have r1: "rotationSpeedRef (visionLoop (handFrame 1 relaxedHand) afterPinch) = 0.002"
    by (simp add: visionLoop_speed [OF p1 l1 detect_relaxedHand] afterPinch_fields)
  have p2: "processed afterFiveL (emptyFrame 5)"
    by (simp add: processed_def afterFiveL_fields emptyFrame_def)
  have l2: "landmarks (emptyFrame 5) = []"
    by (simp add: emptyFrame_def)
  have r2: "photoModeDebounceRef (visionLoop (emptyFrame 5) afterFiveL) = 5"
    by (simp add: visionLoop_nohand [OF p2 l2] afterFiveL_fields)
  from p1 l1 detect_relaxedHand r1 p2 l2 r2 show ?thesis by simp
qed

theorem none_frame_effect_witness:
  "processed afterPinch (handFrame 1 relaxedHand)
   \<and> landmarks (handFrame 1 relaxedHand) = [relaxedHand]
   \<and> detectGesture relaxedHand = Inr NONE
   \<and> photoModeDebounceRef (visionLoop (handFrame 1 relaxedHand) afterPinch) = 0
   \<and> gestureRef (visionLoop (handFrame 1 relaxedHand) afterPinch) = NONE
   \<and> rotationSpeedRef (visionLoop (handFrame 1 relaxedHand) afterPinch) = rotationSpeedRef afterPinch
   \<and> processed afterPinch (emptyFrame 1)
   \<and> landmarks (emptyFrame 1) = []
   \<and> gestureRef (visionLoop (emptyFrame 1) afterPinch) = NONE
   \<and> rotationSpeedRef (visionLoop (emptyFrame 1) afterPinch) = 0.005"
proof -
  have p1: "processed afterPinch (handFrame 1 relaxedHand)"
    by (simp add: processed_def afterPinch_fields handFrame_def)
  have l1: "landmarks (handFrame 1 relaxedHand) = [relaxedHand]"
    by (simp add: handFrame_def)
  have p2: "processed afterPinch (emptyFrame 1)"
    by (simp add: processed_def afterPinch_fields emptyFrame_def)
  have l2: "landmarks (emptyFrame 1) = []"
    by (simp add: emptyFrame_def)
  from none_frame_effect [OF p1] l1 detect_relaxedHand
  have a: "photoModeDebounceRef (visionLoop (handFrame 1 relaxedHand) afterPinch) = 0
     \<and> gestureRef (visionLoop (handFrame 1 relaxedHand) afterPinch) = NONE
     \<and> rotationSpeedRef (visionLoop (handFrame 1 relaxedHand) afterPinch) = rotationSpeedRef afterPinch"
    by blast
  from none_frame_effect [OF p2] l2
  have b: "gestureRef (visionLoop (emptyFrame 1) afterPinch) = NONE
     \<and> rotationSpeedRef (visionLoop (emptyFrame 1) afterPinch) = 0.005"
    by blast
  from p1 l1 detect_relaxedHand a p2 l2 b show ?thesis by simp
qed

theorem lshape_frame_effect_witness:
  "processed countingScene (handFrame 11 lshapeHand)
   \<and> landmarks (handFrame 11 lshapeHand) = [lshapeHand]
   \<and> detectGesture lshapeHand = Inr L_SHAPE_PHOTO
   \<and> isCountingDownRef countingScene
   \<and> modeRef (visionLoop (handFrame 11 lshapeHand) countingScene) = modeRef countingScene
   \<and> rotationSpeedRef (visionLoop (handFrame 11 lshapeHand) countingScene) = 0.005
   \<and> processed afterPinch (handFrame 1 lshapeHand)
   \<and> \<not> isCountingDownRef (visionLoop (handFrame 1 lshapeHand) afterPinch)
   \<and> modeRef (visionLoop (handFrame 1 lshapeHand) afterPinch) = SCATTER
   \<and> rotationSpeedRef (visionLoop (handFrame 1 lshapeHand) afterPinch) = 0.005"
proof -
  have p1: "processed countingScene (handFrame 11 lshapeHand)"
    by (simp add: processed_def countingScene_fields handFrame_def)
  have l1: "landmarks (handFrame 11 lshapeHand) = [lshapeHand]"
    by (simp add: handFrame_def)
  have p2: "processed afterPinch (handFrame 1 lshapeHand)"
    by (simp add: processed_def afterPinch_fields handFrame_def)
  have l2: "landmarks (handFrame 1 lshapeHand) = [lshapeHand]"
    by (simp add: handFrame_def)
  have idle: "\<not> isCountingDownRef (visionLoop (handFrame 1 lshapeHand) afterPinch)"
    by (simp add: visionLoop_hand [OF p2 l2 detect_lshapeHand] modeBranch_frame photoBranch_sub
        afterPinch_fields)
  from lshape_frame_effect [OF p1 l1 detect_lshapeHand] lshape_frame_effect [OF p2 l2 detect_lshapeHand]
    p1 l1 p2 detect_lshapeHand idle countingScene_fields(1) show ?thesis
    by (simp add: afterPinch_fields)
qed

theorem rotationOffset_accumulates_witness:
  "(\<forall>t'. SetupDone \<noteq> RenderTick t')
   \<and> rotationOffsetRef (fire (initApp []) SetupDone) = rotationOffsetRef (initApp [])
   \<and> 0 \<le> rotationSpeedRef (initApp [])
   \<and> rotationOffsetRef (initApp []) \<le> rotationOffsetRef (fire (initApp []) (RenderTick 0))
   \<and> rotationOffsetRef (fire (initApp []) (RenderTick 0)) = 0.005"
proof -
  have h: "\<forall>t'. SetupDone \<noteq> RenderTick t'" by simp
  have sp: "0 \<le> rotationSpeedRef (initApp [])" "rotationSpeedRef (initApp []) = 0.005"
    "rotationOffsetRef (initApp []) = 0"
    by (simp_all add: initApp_def)
  from rotationOffset_accumulates [of "initApp []" 0 SetupDone "[]"] h sp show ?thesis
    by simp
qed

theorem capturePhoto_effect_witness:
  "\<not> videoRefCurrent cameraOff \<and> 0 < length (intervals lastSecondScene)
   \<and> intervals lastSecondScene ! 0 \<le> 1
   \<and> capturePhoto cameraOff lastSecondScene = lastSecondScene
   \<and> particlesRef (fire lastSecondScene (IntervalFire 0 cameraOff)) = []
   \<and> \<not> isCountingDownRef (fire lastSecondScene (IntervalFire 0 cameraOff))
   \<and> intervals (fire lastSecondScene (IntervalFire 0 cameraOff)) = []
   \<and> videoRefCurrent cameraOn \<and> context2d cameraOn
   \<and> particlesRef (capturePhoto cameraOn lastSecondScene) = [newPhoto cameraOn]
   \<and> particlesRef (fire lastSecondScene (IntervalFire 0 cameraOn)) = [newPhoto cameraOn]"
proof -
  have off: "\<not> videoRefCurrent cameraOff" by (simp add: cameraOff_def)
  have on: "videoRefCurrent cameraOn" "context2d cameraOn" by (simp_all add: cameraOn_def)
  have k: "0 < length (intervals lastSecondScene)" "intervals lastSecondScene ! 0 \<le> 1"
    by (simp_all add: lastSecondScene_fields)
  from capturePhoto_effect [of cameraOff lastSecondScene 0] off k
  have a: "capturePhoto cameraOff lastSecondScene = lastSecondScene"
    "particlesRef (fire lastSecondScene (IntervalFire 0 cameraOff)) = particlesRef lastSecondScene"
    "\<not> isCountingDownRef (fire lastSecondScene (IntervalFire 0 cameraOff))"
    "intervals (fire lastSecondScene (IntervalFire 0 cameraOff)) =
       take 0 (intervals lastSecondScene) @ drop (Suc 0) (intervals lastSecondScene)"
    by blast+
  from capturePhoto_effect [of cameraOn lastSecondScene 0] on k
  have b: "particlesRef (capturePhoto cameraOn lastSecondScene) = particlesRef lastSecondScene @ [newPhoto cameraOn]"
    "particlesRef (fire lastSecondScene (IntervalFire 0 cameraOn)) = particlesRef lastSecondScene @ [newPhoto cameraOn]"
    by blast+
  from off on k a b show ?thesis
    by (simp add: lastSecondScene_fields)
qed

theorem photo_countdown_debounce_witness:
  "\<not> isCountingDownRef (run (initApp []) (SetupDone # lshapeFrames 10))
   \<and> isCountingDownRef (run (initApp []) ((SetupDone # lshapeFrames 10) @ [Vision (handFrame 10 lshapeHand)]))
   \<and> consecutiveL [] ((SetupDone # lshapeFrames 10) @ [Vision (handFrame 10 lshapeHand)]) 11
   \<and> frameLabel countingScene (Vision (handFrame 11 lshapeHand)) = Some L_SHAPE_PHOTO
   \<and> photoModeDebounceRef (fire countingScene (Vision (handFrame 11 lshapeHand))) = 11
   \<and> intervals (fire countingScene (Vision (handFrame 11 lshapeHand))) = [3]
   \<and> 0 < length (intervals lastSecondScene)
   \<and> particlesRef (fire lastSecondScene (IntervalFire 0 cameraOn)) = [newPhoto cameraOn]
   \<and> intervals (fire lastSecondScene (IntervalFire 0 cameraOn)) = []
   \<and> \<not> isCountingDownRef (fire lastSecondScene (IntervalFire 0 cameraOn))
   \<and> photoModeDebounceRef (fire lastSecondScene (IntervalFire 0 cameraOn)) = 0"
proof -
  have e: "(SetupDone # lshapeFrames 10) @ [Vision (handFrame 10 lshapeHand)] = SetupDone # lshapeFrames 11"
    using lshapeFrames_Suc [of 10] by simp
  have idle: "\<not> isCountingDownRef (run (initApp []) (SetupDone # lshapeFrames 10))"
    using lshape_run [of 10 "[]"] by simp
  have started: "isCountingDownRef (run (initApp []) ((SetupDone # lshapeFrames 10) @ [Vision (handFrame 10 lshapeHand)]))"
    unfolding e using countdown_started [of "[]"] by simp
  have lab: "frameLabel countingScene (Vision (handFrame 11 lshapeHand)) = Some L_SHAPE_PHOTO"
    by (rule frameLabel_handFrame) (simp_all add: countingScene_fields detect_lshapeHand)
  have k: "0 < length (intervals lastSecondScene)"
    by (simp add: lastSecondScene_fields)
  note A = photo_countdown_debounce [of "[]" "SetupDone # lshapeFrames 10" "Vision (handFrame 10 lshapeHand)"
      countingScene "Vision (handFrame 11 lshapeHand)" L_SHAPE_PHOTO 0 cameraOn]
  note B = photo_countdown_debounce [of "[]" "[]" SetupDone
      lastSecondScene "Vision (handFrame 11 lshapeHand)" L_SHAPE_PHOTO 0 cameraOn]
  from A idle started have c: "consecutiveL [] ((SetupDone # lshapeFrames 10) @ [Vision (handFrame 10 lshapeHand)]) 11"
    by blast
  from A lab have d: "photoModeDebounceRef (fire countingScene (Vision (handFrame 11 lshapeHand))) = 11"
    "intervals (fire countingScene (Vision (handFrame 11 lshapeHand))) = [3]"
    by (simp_all add: countingScene_fields)
  from B k have f: "particlesRef (fire lastSecondScene (IntervalFire 0 cameraOn)) = particlesRef (capturePhoto cameraOn lastSecondScene)"
    "intervals (fire lastSecondScene (IntervalFire 0 cameraOn)) = []"
    "\<not> isCountingDownRef (fire lastSecondScene (IntervalFire 0 cameraOn))"
    "photoModeDebounceRef (fire lastSecondScene (IntervalFire 0 cameraOn)) = 0"
    by (simp_all add: lastSecondScene_fields)
  have g: "particlesRef (capturePhoto cameraOn lastSecondScene) = [newPhoto cameraOn]"
    by (simp add: capturePhoto_def cameraOn_def lastSecondScene_fields)
  from idle started c lab d k f g show ?thesis by simp
qed

lemma lshapeFramesFrom_Suc:
  "lshapeFramesFrom a (Suc n) = lshapeFramesFrom a n @ [Vision (handFrame (real (a + n)) lshapeHand)]"
  by (simp add: lshapeFramesFrom_def)

lemma lshape_run_from:
  assumes "visionLoopState s = Running" "\<not> isCountingDownRef s" "intervals s = []"
    "lastVideoTime s < real a"
  shows "photoModeDebounceRef s + n \<le> 10 \<Longrightarrow>
     \<not> isCountingDownRef (run s (lshapeFramesFrom a n))
     \<and> photoModeDebounceRef (run s (lshapeFramesFrom a n)) = photoModeDebounceRef s + n
     \<and> intervals (run s (lshapeFramesFrom a n)) = []
     \<and> visionLoopState (run s (lshapeFramesFrom a n)) = Running
     \<and> lastVideoTime (run s (lshapeFramesFrom a n)) < real (a + n)"
proof (induction n)
  case 0
  show ?case using assms by (simp add: lshapeFramesFrom_def run_Nil)
next
  case (Suc n)
  define s' where "s' = run s (lshapeFramesFrom a n)"
  define v where "v = handFrame (real (a + n)) lshapeHand"
  from Suc have IH: "\<not> isCountingDownRef s'" "photoModeDebounceRef s' = photoModeDebounceRef s + n"
    "intervals s' = []" "visionLoopState s' = Running" "lastVideoTime s' < real (a + n)"
    by (simp_all add: s'_def)
  have r: "run s (lshapeFramesFrom a (Suc n)) = fire s' (Vision v)"
    unfolding lshapeFramesFrom_Suc s'_def v_def by (rule run_snoc)
  have p: "processed s' v" using IH by (simp add: processed_def v_def handFrame_def)
  have l: "landmarks v = lshapeHand # []" by (simp add: v_def handFrame_def)
  have lab: "frameLabel s' (Vision v) = Some L_SHAPE_PHOTO"
    unfolding v_def by (rule frameLabel_handFrame) (use IH in \<open>simp_all add: detect_lshapeHand\<close>)
  have f: "fire s' (Vision v) = visionLoop v s'" by (simp add: fire_def)
  from Suc.prems have "photoModeDebounceRef s + n < 10" by simp
  with fire_labelled [OF lab] IH lshape_frame_state [OF p l detect_lshapeHand] show ?case
    unfolding r by (simp add: f [symmetric]) (simp add: f v_def handFrame_def)
qed

lemma afterGap_fields:
  "visionLoopState (fire afterFiveL (Vision (emptyFrame 5))) = Running"
  "\<not> isCountingDownRef (fire afterFiveL (Vision (emptyFrame 5)))"
  "intervals (fire afterFiveL (Vision (emptyFrame 5))) = []"
  "lastVideoTime (fire afterFiveL (Vision (emptyFrame 5))) = 5"
  "photoModeDebounceRef (fire afterFiveL (Vision (emptyFrame 5))) = 5"
  "gestureRef (fire afterFiveL (Vision (emptyFrame 5))) = NONE"
proof -
  have p: "processed afterFiveL (emptyFrame 5)"
    by (simp add: processed_def afterFiveL_fields emptyFrame_def)
  have l: "landmarks (emptyFrame 5) = []" by (simp add: emptyFrame_def)
  have i: "intervals afterFiveL = []"
    using lshape_run [of 5 "[]"] by (simp add: afterFiveL_def)
  show "visionLoopState (fire afterFiveL (Vision (emptyFrame 5))) = Running"
    "\<not> isCountingDownRef (fire afterFiveL (Vision (emptyFrame 5)))"
    "intervals (fire afterFiveL (Vision (emptyFrame 5))) = []"
    "lastVideoTime (fire afterFiveL (Vision (emptyFrame 5))) = 5"
    "photoModeDebounceRef (fire afterFiveL (Vision (emptyFrame 5))) = 5"
    "gestureRef (fire afterFiveL (Vision (emptyFrame 5))) = NONE"
    by (simp_all add: fire_def visionLoop_nohand [OF p l] afterFiveL_fields i)
       (simp_all add: emptyFrame_def)
qed

lemma gapRunButLast_state:
  "run (initApp []) gapRunButLast = run (fire afterFiveL (Vision (emptyFrame 5))) (lshapeFramesFrom 6 5)"
  by (simp add: gapRunButLast_def afterFiveL_def run_append run_Cons run_Nil)

lemma gapRun_last:
  "gapRun = gapRunButLast @ [Vision (handFrame 11 lshapeHand)]"
  using lshapeFramesFrom_Suc [of 6 5] by (simp add: gapRun_def gapRunButLast_def)

text \<open>
  C2. The claim asks that any frame between the L-shape frames that is not an L-shape
  frame resets the debounce counter. The code at five L-shape frames, a processed frame
  without a hand, and six more L-shape frames: the frame without a hand leaves the counter
  at 5, the counter reaches 10 before the last frame, and the last frame starts the
  countdown, although no eleven L-shape frames were consecutive.
\<close>

theorem nohand_gap_starts_countdown:
  "processed afterFiveL (emptyFrame 5) \<and> landmarks (emptyFrame 5) = []
   \<and> photoModeDebounceRef afterFiveL = 5
   \<and> photoModeDebounceRef (fire afterFiveL (Vision (emptyFrame 5))) = 5
   \<and> gapRun = SetupDone # lshapeFrames 5 @ [Vision (emptyFrame 5)] @ lshapeFramesFrom 6 6
   \<and> \<not> isCountingDownRef (run (initApp []) gapRunButLast)
   \<and> photoModeDebounceRef (run (initApp []) gapRunButLast) = 10
   \<and> isCountingDownRef (run (initApp []) gapRun)
   \<and> countdown (run (initApp []) gapRun) = Some 3
   \<and> intervals (run (initApp []) gapRun) = [3]"
proof -
  define s where "s = fire afterFiveL (Vision (emptyFrame 5))"
  define s' where "s' = run s (lshapeFramesFrom 6 5)"
  have p: "processed afterFiveL (emptyFrame 5)"
    by (simp add: processed_def afterFiveL_fields emptyFrame_def)
  have l: "landmarks (emptyFrame 5) = []" by (simp add: emptyFrame_def)
  have g: "visionLoopState s = Running" "\<not> isCountingDownRef s" "intervals s = []"
    "lastVideoTime s < real 6" "photoModeDebounceRef s = 5"
    using afterGap_fields by (simp_all add: s_def)
  from lshape_run_from [OF g(1-4), of 5] g(5)
  have t: "\<not> isCountingDownRef s'" "photoModeDebounceRef s' = 10" "intervals s' = []"
    "visionLoopState s' = Running" "lastVideoTime s' < 11"
    by (simp_all add: s'_def)
  have r1: "run (initApp []) gapRunButLast = s'"
    by (simp add: gapRunButLast_state s_def s'_def)
  have r2: "run (initApp []) gapRun = fire s' (Vision (handFrame 11 lshapeHand))"
    unfolding gapRun_last r1 [symmetric] by (rule run_snoc)
  have lab: "frameLabel s' (Vision (handFrame 11 lshapeHand)) = Some L_SHAPE_PHOTO"
    by (rule frameLabel_handFrame) (use t in \<open>simp_all add: detect_lshapeHand\<close>)
  from fire_labelled [OF lab] t
  have u: "isCountingDownRef (fire s' (Vision (handFrame 11 lshapeHand)))"
    "countdown (fire s' (Vision (handFrame 11 lshapeHand))) = Some 3"
    "intervals (fire s' (Vision (handFrame 11 lshapeHand))) = [3]"
    by simp_all
  from p l afterFiveL_fields(1) g(5) t(1,2) u show ?thesis
    unfolding r1 r2 by (simp add: s_def gapRun_def)
qed

text \<open>
  A video element that is mounted but not ready (\<^verbatim>\<open>readyState\<close> 0) when the countdown
  completes: the capture is not a no-op, a photo particle is appended.
\<close>

theorem unready_video_still_captured:
  "videoRefCurrent cameraNotReady \<and> videoReadyState cameraNotReady = 0
   \<and> intervals lastSecondScene = [1] \<and> particlesRef lastSecondScene = []
   \<and> particlesRef (capturePhoto cameraNotReady lastSecondScene) = [newPhoto cameraNotReady]
   \<and> particlesRef (fire lastSecondScene (IntervalFire 0 cameraNotReady)) = [newPhoto cameraNotReady]
   \<and> ptype (newPhoto cameraNotReady) = PHOTO"
  by (simp add: cameraNotReady_def cameraOn_def lastSecondScene_fields fire_def intervalCallback_def
      capturePhoto_def Let_def newPhoto_def)

end
